theory Spec2Isabelle
  imports Complex_Main
begin

section \<open>Numbers and values\<close>

text \<open>
  The components are JavaScript; every number in them is an IEEE-754 double. Finite
  numbers are modelled as rationals (\<^typ>\<open>rat\<close>): comparison, \<open>Math.min\<close>,
  \<open>Math.abs\<close>, \<open>Math.floor\<close> and \<open>%\<close> are exact on doubles, while \<open>+\<close>, \<open>*\<close> and
  \<open>/\<close> round to the nearest double. The lap summary of the Dashboard is modelled with
  that rounding (\<open>round_double\<close> below), because the order between its best and its
  average lap depends on it. In the other components the rounding is left out: a
  rational there stands for the double nearest to it.
  Where a computation can meet \<open>NaN\<close> the number type is \<open>jsnum\<close>; it has no
  infinities, and no division on it has a divisor that can be 0.
\<close>

datatype jsnum = Fin rat | NaN

text \<open>The values a JSON field read by the components can hold, as far as they are told apart.\<close>

datatype jsval = Num jsnum | Null | Undefined

text \<open>\<open>ToBoolean\<close>: 0, \<open>NaN\<close>, \<open>null\<close> and \<open>undefined\<close> are falsy.\<close>

fun truthy :: "jsval \<Rightarrow> bool" where
  "truthy (Num (Fin x)) = (x \<noteq> 0)"
| "truthy (Num NaN) = False"
| "truthy Null = False"
| "truthy Undefined = False"

text \<open>\<open>ToNumber\<close>\<close>

fun to_number :: "jsval \<Rightarrow> jsnum" where
  "to_number (Num n) = n"
| "to_number Null = Fin 0"
| "to_number Undefined = NaN"

text \<open>\<open>v === 0\<close>\<close>

fun strict_eq_zero :: "jsval \<Rightarrow> bool" where
  "strict_eq_zero (Num (Fin x)) = (x = 0)"
| "strict_eq_zero _ = False"

fun js_add :: "jsnum \<Rightarrow> jsnum \<Rightarrow> jsnum" where
  "js_add (Fin a) (Fin b) = Fin (a + b)"
| "js_add _ _ = NaN"

fun js_mul :: "jsnum \<Rightarrow> jsnum \<Rightarrow> jsnum" where
  "js_mul (Fin a) (Fin b) = Fin (a * b)"
| "js_mul _ _ = NaN"

text \<open>\<open>a / b\<close>; a finite number over 0 is an infinity in JavaScript, outside this model.\<close>

fun js_div :: "jsnum \<Rightarrow> jsnum \<Rightarrow> jsnum" where
  "js_div (Fin a) (Fin b) = (if b = 0 then NaN else Fin (a / b))"
| "js_div _ _ = NaN"

text \<open>Rounding towards zero.\<close>

definition js_trunc :: "rat \<Rightarrow> int" where
  "js_trunc q = (if 0 \<le> q then \<lfloor>q\<rfloor> else \<lceil>q\<rceil>)"

text \<open>\<open>a % b\<close>: the remainder has the sign of the dividend.\<close>

fun js_rem :: "jsnum \<Rightarrow> jsnum \<Rightarrow> jsnum" where
  "js_rem (Fin a) (Fin b) = (if b = 0 then NaN else Fin (a - b * of_int (js_trunc (a / b))))"
| "js_rem _ _ = NaN"

text \<open>\<open>Math.floor\<close>: an integer, or \<open>NaN\<close> (\<open>None\<close>).\<close>

fun Math_floor :: "jsnum \<Rightarrow> int option" where
  "Math_floor (Fin x) = Some \<lfloor>x\<rfloor>"
| "Math_floor NaN = None"

text \<open>\<open>x || y\<close> for a field \<open>x\<close> that holds a number or is absent.\<close>

fun or_else :: "rat option \<Rightarrow> jsnum \<Rightarrow> jsnum" where
  "or_else (Some x) y = (if x \<noteq> 0 then Fin x else y)"
| "or_else None y = y"

text \<open>
  What \<open>fetch\<close> followed by \<open>res.json()\<close> gives: an exception, or a response with its
  \<open>res.ok\<close> flag and parsed body.
\<close>

datatype 'a response = Threw | Http bool 'a

section \<open>Rounding to the nearest double\<close>

text \<open>The number of binary digits of a natural number.\<close>

fun bit_length :: "nat \<Rightarrow> nat" where
  "bit_length n = (if n = 0 then 0 else Suc (bit_length (n div 2)))"

declare bit_length.simps [simp del]

text \<open>
  The exponent \<open>e\<close> of a positive number \<open>x\<close>, the one with \<open>2^e \<le> x < 2^(e+1)\<close>: from the
  digits of the integer part when \<open>x\<close> is at least 1, and otherwise from the least power
  of two that \<open>1 / x\<close> does not exceed.
\<close>

definition binade :: "rat \<Rightarrow> int" where
  "binade x =
     (if 1 \<le> x then int (bit_length (nat \<lfloor>x\<rfloor>)) - 1
      else - int (bit_length (nat \<lceil>1 / x\<rceil> - 1)))"

definition pow2 :: "int \<Rightarrow> rat" where
  "pow2 e = (if 0 \<le> e then 2 ^ nat e else 1 / 2 ^ nat (- e))"

text \<open>
  The distance between neighbouring doubles around \<open>x\<close>: 52 binary places below the
  exponent of \<open>x\<close>, and never finer than \<open>2^-1074\<close> (the subnormal numbers).
\<close>

definition ulp :: "rat \<Rightarrow> rat" where
  "ulp x = pow2 (max (binade \<bar>x\<bar>) (- 1022) - 52)"

text \<open>The nearest integer, the even one of two that are equally near.\<close>

definition round_half_even :: "rat \<Rightarrow> int" where
  "round_half_even q =
     (if q - of_int \<lfloor>q\<rfloor> < 1 / 2 then \<lfloor>q\<rfloor>
      else if 1 / 2 < q - of_int \<lfloor>q\<rfloor> then \<lfloor>q\<rfloor> + 1
      else if even \<lfloor>q\<rfloor> then \<lfloor>q\<rfloor> else \<lfloor>q\<rfloor> + 1)"

text \<open>
  The double nearest to \<open>x\<close>, ties to the even significand, for \<open>x\<close> within the range of
  the doubles. This is also the double that \<open>JSON.parse\<close> gives for a decimal numeral.
\<close>

definition nearest_double :: "rat \<Rightarrow> rat" where
  "nearest_double x = of_int (round_half_even (x / ulp x)) * ulp x"

text \<open>
  The result of an arithmetic operation whose exact value is \<open>x\<close>: an infinity from
  \<open>2^1024 - 2^970\<close> on, half a step above the largest double.
\<close>

datatype double = Finite rat | PlusInfinity | MinusInfinity

definition round_double :: "rat \<Rightarrow> double" where
  "round_double x =
     (if 2 ^ 1024 - 2 ^ 970 \<le> x then PlusInfinity
      else if x \<le> - (2 ^ 1024 - 2 ^ 970) then MinusInfinity
      else Finite (nearest_double x))"

text \<open>\<open>a + b\<close> for a sum \<open>a\<close> so far and a finite \<open>b\<close>; an infinite sum stays as it is.\<close>

fun double_add :: "double \<Rightarrow> rat \<Rightarrow> double" where
  "double_add (Finite a) b = round_double (a + b)"
| "double_add PlusInfinity b = PlusInfinity"
| "double_add MinusInfinity b = MinusInfinity"

text \<open>\<open>a / n\<close> for the length \<open>n\<close> of a list that is not empty.\<close>

fun double_div :: "double \<Rightarrow> nat \<Rightarrow> double" where
  "double_div (Finite a) n = round_double (a / of_nat n)"
| "double_div PlusInfinity n = PlusInfinity"
| "double_div MinusInfinity n = MinusInfinity"

section \<open>Dashboard: the per-driver lap summary of \<open>loadRaceOverview\<close>\<close>

text \<open>An entry of \<open>data.laps\<close>; only \<open>l.time\<close> is read, a finite number.\<close>

record lap =
  lap_number :: nat
  time :: rat

text \<open>
  An entry of the drivers list. \<open>best_lap\<close> may be absent from the JSON object
  (\<open>None\<close>); the code tests it for truthiness.
\<close>

record driver =
  id' :: string
  number :: string
  best_lap :: "rat option"

text \<open>
  The object the callback of \<open>driversList.slice(0, 10).map\<close> returns. The best lap is
  one of the lap times; the average lap is computed, and can be an infinity.
\<close>

record summary =
  driver :: string
  bestLap :: rat
  avgLap :: double
  lapCount :: nat

text \<open>
  The body of the laps response: its \<open>laps\<close> field may be missing (\<open>data.laps || []\<close>).
\<close>

type_synonym laps_body = "lap list option"

text \<open>\<open>laps.map(l => l.time).filter(t => t > 0)\<close>\<close>

definition lapTimes_of :: "lap list \<Rightarrow> rat list" where
  "lapTimes_of laps = filter (\<lambda>t. t > 0) (map time laps)"

text \<open>
  The body of \<open>if (laps.length > 0)\<close>. \<open>Math.min(...lapTimes)\<close> is only evaluated under
  \<open>lapTimes.length > 0\<close>, where it folds \<open>min\<close> over the list (the limit an engine
  puts on the number of arguments of a call is not modelled). In
  \<open>lapTimes.reduce((a, b) => a + b, 0) / lapTimes.length\<close> the sum is a left fold from
  0 in which every addition is rounded, and the division is rounded once more. \<open>None\<close>
  is falling through to the fallback.
\<close>

definition summary_from_laps :: "driver \<Rightarrow> lap list \<Rightarrow> summary option" where
  "summary_from_laps d laps =
     (if length laps > 0 then
        (let lapTimes = lapTimes_of laps in
         case lapTimes of
           [] \<Rightarrow> None
         | t # ts \<Rightarrow>
             Some \<lparr> driver = number d,
                    bestLap = fold min ts t,
                    avgLap = double_div (foldl double_add (Finite 0) lapTimes) (length lapTimes),
                    lapCount = length laps \<rparr>)
      else None)"

text \<open>
  \<open>if (driver.best_lap)\<close>: a present, non-zero number is truthy. The average is
  \<open>driver.best_lap + 1.5\<close>, rounded.
\<close>

definition summary_fallback :: "driver \<Rightarrow> summary option" where
  "summary_fallback d =
     (case best_lap d of
        None \<Rightarrow> None
      | Some b \<Rightarrow>
          if b \<noteq> 0
          then Some \<lparr> driver = number d, bestLap = b, avgLap = round_double (b + 3 / 2),
                      lapCount = 10 \<rparr>
          else None)"

text \<open>
  The whole callback; \<open>None\<close> is the \<open>null\<close> it returns. An exception is caught by the
  inner \<open>catch\<close>; a response that is not \<open>res.ok\<close> goes to the fallback.
\<close>

definition driver_summary :: "driver \<Rightarrow> laps_body response \<Rightarrow> summary option" where
  "driver_summary d res =
     (case res of
        Threw \<Rightarrow> None
      | Http ok data \<Rightarrow>
          (case (if ok then summary_from_laps d (case data of None \<Rightarrow> [] | Some laps \<Rightarrow> laps)
                 else None) of
             Some s \<Rightarrow> Some s
           | None \<Rightarrow> summary_fallback d))"

section \<open>Dashboard: the lap-times chart data of \<open>DriverView\<close>\<close>

text \<open>
  The fields of the analysis response that \<open>lapTimesData\<close> reads; each may be absent.
\<close>

record analysis =
  lap_count :: "int option"
  avg_lap_time :: "rat option"

record lap_time_point =
  lap_index :: nat
  lap_seconds :: jsnum

text \<open>
  \<open>Math.random()\<close> is the only input of the component that is not data: the model takes
  the draws as a sequence, \<open>rnd i\<close> being the value returned to the \<open>i\<close>-th call of the
  callback of \<open>Array.from\<close>.

  \<open>analysis?.lap_count ? Array.from({ length: Math.min(10, analysis.lap_count) }, ...) : []\<close>:
  a negative length is an empty array.
\<close>

definition lapTimesData :: "analysis option \<Rightarrow> (nat \<Rightarrow> rat) \<Rightarrow> lap_time_point list" where
  "lapTimesData a rnd =
     (case a of
        None \<Rightarrow> []
      | Some an \<Rightarrow>
          (case lap_count an of
             None \<Rightarrow> []
           | Some c \<Rightarrow>
               if c \<noteq> 0
               then map (\<lambda>i. \<lparr> lap_index = i + 1,
                                lap_seconds =
                                  js_add (or_else (avg_lap_time an) (Fin 98.5))
                                         (js_mul (Fin (rnd i - 0.5)) (Fin 1)) \<rparr>)
                        [0 ..< nat (min 10 c)]
               else []))"

section \<open>DriverAnalysis: the coordinates of the racing line\<close>

record point =
  lat :: rat
  lon :: rat

record racing_line =
  current_line :: "point list option"
  optimal_line :: "point list option"

text \<open>
  The callback of \<open>filter\<close>, the same text for both lines:
  \<open>p => p.lat !== 0 && p.lon !== 0 && Math.abs(p.lat) < 90 && Math.abs(p.lon) < 180\<close>
\<close>

definition line_filter :: "point \<Rightarrow> bool" where
  "line_filter p = (lat p \<noteq> 0 \<and> lon p \<noteq> 0 \<and> \<bar>lat p\<bar> < 90 \<and> \<bar>lon p\<bar> < 180)"

text \<open>
  The callback of \<open>map\<close>, the same code for both lines: swap when the coordinates seem
  inverted, then return \<open>[lat, lon]\<close>.
\<close>

definition line_map :: "point \<Rightarrow> rat \<times> rat" where
  "line_map p =
     (let la = lat p; lo = lon p in
      if \<bar>la\<bar> > 90 \<or> \<bar>lo\<bar> > 180 then (lo, la) else (la, lo))"

text \<open>\<open>racingLine?.current_line?.filter(...).map(...) || []\<close>\<close>

definition currentLineCoords :: "racing_line option \<Rightarrow> (rat \<times> rat) list" where
  "currentLineCoords racingLine =
     (case racingLine of
        None \<Rightarrow> []
      | Some r \<Rightarrow>
          (case current_line r of
             None \<Rightarrow> []
           | Some ps \<Rightarrow> map line_map (filter line_filter ps)))"

definition optimalLineCoords :: "racing_line option \<Rightarrow> (rat \<times> rat) list" where
  "optimalLineCoords racingLine =
     (case racingLine of
        None \<Rightarrow> []
      | Some r \<Rightarrow>
          (case optimal_line r of
             None \<Rightarrow> []
           | Some ps \<Rightarrow> map line_map (filter line_filter ps)))"

section \<open>DriverAnalysis: \<open>handleCompare\<close>\<close>

text \<open>
  A row of \<open>comparison.drivers\<close>. The fields are the JSON keys \<open>driver_id\<close>, \<open>best_lap\<close>,
  \<open>avg_lap\<close>, \<open>consistency\<close> and \<open>lap_count\<close>; a row of the backend may hold \<open>null\<close>.
\<close>

record comparison_row =
  driver_id :: string
  cmp_best_lap :: jsval
  cmp_avg_lap :: jsval
  cmp_consistency :: jsval
  cmp_lap_count :: jsval

text \<open>The state \<open>handleCompare\<close> reads.\<close>

record compare_state =
  drivers :: "driver list"
  compareDrivers :: "string list"

text \<open>What the handler does to the outside, in order.\<close>

datatype compare_event =
    Alert string
  | Fetch string
  | SetComparison "comparison_row list"
  | ConsoleError

text \<open>\<open>compareDrivers.join(',')\<close>\<close>

fun join_comma :: "string list \<Rightarrow> string" where
  "join_comma [] = []"
| "join_comma [x] = x"
| "join_comma (x # y # ys) = x @ '','' @ join_comma (y # ys)"

definition comparison_url :: "string \<Rightarrow> string list \<Rightarrow> string" where
  "comparison_url raceId ids =
     ''/api/race/'' @ raceId @ ''/comparison?driver_ids='' @ join_comma ids"

text \<open>
  The callback of \<open>compareDrivers.map\<close> in the fallback: \<open>drivers.find(d => d.id === id)\<close>,
  then the row, or \<open>null\<close> (\<open>None\<close>). \<open>parseInt\<close> is a builtin of the runtime; the model
  takes it as a parameter.
\<close>

definition fallback_row :: "(string \<Rightarrow> jsnum) \<Rightarrow> driver list \<Rightarrow> string \<Rightarrow> comparison_row option" where
  "fallback_row parseInt ds i =
     (case find (\<lambda>d. id' d = i) ds of
        Some d \<Rightarrow>
          Some \<lparr> driver_id = i,
                 cmp_best_lap =
                   Num (or_else (best_lap d)
                          (js_add (Fin 97.0) (js_mul (js_rem (parseInt i) (Fin 10)) (Fin 0.5)))),
                 cmp_avg_lap = Num (js_add (or_else (best_lap d) (Fin 97.0)) (Fin 1.5)),
                 cmp_consistency = Num (Fin 0.8),
                 cmp_lap_count = Num (Fin 10) \<rparr>
      | None \<Rightarrow> None)"

text \<open>
  \<open>compareDrivers.map(...).filter(d => d !== null)\<close>; what is left after the filter are
  rows, which \<open>the\<close> unwraps.
\<close>

definition fallbackComparison :: "(string \<Rightarrow> jsnum) \<Rightarrow> compare_state \<Rightarrow> comparison_row list" where
  "fallbackComparison parseInt st =
     map the (filter (\<lambda>r. r \<noteq> None) (map (fallback_row parseInt (drivers st)) (compareDrivers st)))"

text \<open>
  The handler. \<open>net\<close> answers a request; the body is \<open>data.drivers\<close>, \<open>None\<close> when \<open>data\<close>
  or the field is missing. A response that is not \<open>res.ok\<close> throws, and the \<open>catch\<close>
  logs and alerts.
\<close>

definition handleCompare ::
  "(string \<Rightarrow> jsnum) \<Rightarrow> string \<Rightarrow> compare_state \<Rightarrow> (string \<Rightarrow> comparison_row list option response)
     \<Rightarrow> compare_event list" where
  "handleCompare parseInt raceId st net =
     (if length (compareDrivers st) < 2
      then [Alert ''Please select at least 2 drivers to compare'']
      else
        (let url = comparison_url raceId (compareDrivers st) in
         Fetch url #
         (case net url of
            Threw \<Rightarrow>
              [ConsoleError, Alert ''Failed to compare drivers. Please check if the backend is running.'']
          | Http ok data \<Rightarrow>
              if \<not> ok
              then [ConsoleError, Alert ''Failed to compare drivers. Please check if the backend is running.'']
              else
                (case data of
                   Some (r # rs) \<Rightarrow> [SetComparison (r # rs)]
                 | _ \<Rightarrow>
                    (let fb = fallbackComparison parseInt st in
                     if length fb > 0
                     then [SetComparison fb]
                     else [Alert ''No comparison data available for selected drivers. Please ensure the backend is running and data files are accessible.''])))))"

section \<open>StrategyCalculator\<close>

text \<open>
  The state of the component. \<open>'s\<close> is the strategy object of the backend, which the
  component stores as it comes.
\<close>

record 's strategy_state =
  currentLap :: int
  totalLaps :: int
  degradationRate :: rat
  strategy :: "'s option"
  loading :: bool

text \<open>The query of \<open>/api/race/${raceId}/strategy/pit-stop\<close>.\<close>

record strategy_request =
  race :: string
  current_lap :: int
  total_laps :: int
  tire_degradation_rate :: rat

datatype strategy_event = Request strategy_request | LogError

text \<open>
  \<open>calculateStrategy\<close>: the new state and what was done to the outside. \<open>res.ok\<close> is not
  looked at: whatever body parses is stored.
\<close>

definition calculateStrategy ::
  "string \<Rightarrow> 's strategy_state \<Rightarrow> (strategy_request \<Rightarrow> 's response)
     \<Rightarrow> 's strategy_state \<times> strategy_event list" where
  "calculateStrategy raceId st net =
     (if currentLap st \<ge> totalLaps st
      then (st\<lparr> strategy := None \<rparr>, [])
      else
        (let req = \<lparr> race = raceId, current_lap = currentLap st, total_laps = totalLaps st,
                     tire_degradation_rate = degradationRate st \<rparr> in
         case net req of
           Threw \<Rightarrow> (st\<lparr> loading := False \<rparr>, [Request req, LogError])
         | Http ok data \<Rightarrow> (st\<lparr> strategy := Some data, loading := False \<rparr>, [Request req])))"

text \<open>
  The three \<open>onChange\<close> handlers. \<open>parseInt\<close> and \<open>parseFloat\<close> are builtins of the
  runtime: the handlers take what they return on the text of the field (\<open>NaN\<close> on an
  empty field). \<open>parseInt\<close> returns an integer or \<open>NaN\<close> (\<open>None\<close>).

  \<open>setCurrentLap(parseInt(e.target.value) || 1)\<close>
\<close>

definition onChange_currentLap :: "int option \<Rightarrow> 's strategy_state \<Rightarrow> 's strategy_state" where
  "onChange_currentLap parsed st =
     st\<lparr> currentLap := (case parsed of Some n \<Rightarrow> if n \<noteq> 0 then n else 1 | None \<Rightarrow> 1) \<rparr>"

text \<open>\<open>setTotalLaps(parseInt(e.target.value) || 27)\<close>\<close>

definition onChange_totalLaps :: "int option \<Rightarrow> 's strategy_state \<Rightarrow> 's strategy_state" where
  "onChange_totalLaps parsed st =
     st\<lparr> totalLaps := (case parsed of Some n \<Rightarrow> if n \<noteq> 0 then n else 27 | None \<Rightarrow> 27) \<rparr>"

text \<open>\<open>setDegradationRate((parseFloat(e.target.value) || 0) / 100)\<close>\<close>

definition onChange_degradationRate :: "rat option \<Rightarrow> 's strategy_state \<Rightarrow> 's strategy_state" where
  "onChange_degradationRate parsed st =
     st\<lparr> degradationRate := (case parsed of Some x \<Rightarrow> if x \<noteq> 0 then x else 0 | None \<Rightarrow> 0) / 100 \<rparr>"

text \<open>
  The effect \<open>useEffect(() => { calculateStrategy() }, [raceId, currentLap, totalLaps,
  degradationRate])\<close> runs the calculation after a change of the rate.
\<close>

definition change_rate_and_recalculate ::
  "string \<Rightarrow> rat option \<Rightarrow> 's strategy_state \<Rightarrow> (strategy_request \<Rightarrow> 's response)
     \<Rightarrow> 's strategy_state \<times> strategy_event list" where
  "change_rate_and_recalculate raceId parsed st net =
     calculateStrategy raceId (onChange_degradationRate parsed st) net"

text \<open>
  The ranges the three number inputs declare with their \<open>min\<close> and \<open>max\<close> attributes:
  \<open>min={1} max={totalLaps - 1}\<close> for the current lap, \<open>min={currentLap + 1} max={100}\<close>
  for the total laps, \<open>min={0.1} max={5}\<close> for the rate, which the field shows in per
  cent (\<open>value={degradationRate * 100}\<close>).
\<close>

definition declared_ranges :: "'s strategy_state \<Rightarrow> bool" where
  "declared_ranges st =
     (1 \<le> currentLap st \<and> currentLap st \<le> totalLaps st - 1
      \<and> currentLap st + 1 \<le> totalLaps st \<and> totalLaps st \<le> 100
      \<and> 0.1 \<le> degradationRate st * 100 \<and> degradationRate st * 100 \<le> 5)"

text \<open>
  The contract of the parameters of a request: a current lap of at least 1, more total
  laps than that, and a rate above 0 and at most 0.05.
\<close>

definition in_contract :: "strategy_request \<Rightarrow> bool" where
  "in_contract r =
     (1 \<le> current_lap r \<and> current_lap r < total_laps r
      \<and> 0 < tire_degradation_rate r \<and> tire_degradation_rate r \<le> 0.05)"

section \<open>The three \<open>formatLapTime\<close> helpers\<close>

text \<open>The decimal digits of a natural number.\<close>

definition digit_char :: "nat \<Rightarrow> char" where
  "digit_char d = ''0123456789'' ! (d mod 10)"

fun digits :: "nat \<Rightarrow> string" where
  "digits n = (if n < 10 then [digit_char n] else digits (n div 10) @ [digit_char (n mod 10)])"

declare digits.simps [simp del]

text \<open>
  \<open>${minutes}\<close>: the string of an integer, or of \<open>NaN\<close>. (From \<open>10^21\<close> on JavaScript
  writes a number with an exponent; the model writes all the digits.)
\<close>

fun template_number :: "int option \<Rightarrow> string" where
  "template_number None = ''NaN''"
| "template_number (Some i) = (if i < 0 then ''-'' @ digits (nat (- i)) else digits (nat i))"

text \<open>
  \<open>x.toFixed(3)\<close> for \<open>0 \<le> x < 10^21\<close>, after the language specification, in
  its four steps: the integer \<open>n\<close> nearest to \<open>1000 x\<close>, the larger one on a tie; its
  digits; zeros in front up to four characters; a point before the last three.
\<close>

definition nearest_thousandth :: "rat \<Rightarrow> nat" where
  "nearest_thousandth x = nat \<lfloor>x * 1000 + 1 / 2\<rfloor>"

definition digits_or_zero :: "nat \<Rightarrow> string" where
  "digits_or_zero n = (if n = 0 then ''0'' else digits n)"

definition zero_fill :: "string \<Rightarrow> string" where
  "zero_fill m = (if length m \<le> 3 then replicate (4 - length m) (CHR ''0'') @ m else m)"

definition point_before_last3 :: "string \<Rightarrow> string" where
  "point_before_last3 m = take (length m - 3) m @ ''.'' @ drop (length m - 3) m"

definition fixed3 :: "rat \<Rightarrow> string" where
  "fixed3 x = point_before_last3 (zero_fill (digits_or_zero (nearest_thousandth x)))"

text \<open>\<open>toFixed(3)\<close>: \<open>NaN\<close> gives \<open>"NaN"\<close>, a negative number a minus sign and the rest.\<close>

fun toFixed3 :: "jsnum \<Rightarrow> string" where
  "toFixed3 NaN = ''NaN''"
| "toFixed3 (Fin x) = (if x < 0 then ''-'' @ fixed3 (- x) else fixed3 x)"

text \<open>\<open>s.padStart(n, c)\<close>\<close>

definition padStart :: "nat \<Rightarrow> char \<Rightarrow> string \<Rightarrow> string" where
  "padStart n c s = replicate (n - length s) c @ s"

text \<open>\<open>formatLapTime\<close> of DriverAnalysis.jsx.\<close>

definition formatLapTime_DriverAnalysis :: "jsval \<Rightarrow> string" where
  "formatLapTime_DriverAnalysis seconds =
     (if \<not> truthy seconds \<or> strict_eq_zero seconds then ''N/A''
      else
        (let minutes = Math_floor (js_div (to_number seconds) (Fin 60));
             secs = toFixed3 (js_rem (to_number seconds) (Fin 60))
         in template_number minutes @ '':'' @ padStart 6 (CHR ''0'') secs))"

text \<open>\<open>formatLapTime\<close> of RaceInsights.jsx.\<close>

definition formatLapTime_RaceInsights :: "jsval \<Rightarrow> string" where
  "formatLapTime_RaceInsights seconds =
     (if \<not> truthy seconds \<or> strict_eq_zero seconds then ''N/A''
      else
        (let minutes = Math_floor (js_div (to_number seconds) (Fin 60));
             secs = toFixed3 (js_rem (to_number seconds) (Fin 60))
         in template_number minutes @ '':'' @ padStart 6 (CHR ''0'') secs))"

text \<open>\<open>formatLapTime\<close> of the Dashboard component: no guard.\<close>

definition formatLapTime_Dashboard :: "jsval \<Rightarrow> string" where
  "formatLapTime_Dashboard seconds =
     (let minutes = Math_floor (js_div (to_number seconds) (Fin 60));
          secs = toFixed3 (js_rem (to_number seconds) (Fin 60))
      in template_number minutes @ '':'' @ padStart 6 (CHR ''0'') secs)"

section \<open>Example inputs\<close>

text \<open>A driver without \<open>best_lap\<close>, and the four laps of the end-to-end example.\<close>

definition example_driver :: driver where
  "example_driver = \<lparr> id' = ''13'', number = ''13'', best_lap = None \<rparr>"

definition example_laps :: "lap list" where
  "example_laps =
     [\<lparr> lap_number = 1, time = 96.5 \<rparr>, \<lparr> lap_number = 2, time = 96.8 \<rparr>,
      \<lparr> lap_number = 3, time = 97.0 \<rparr>, \<lparr> lap_number = 4, time = 400.2 \<rparr>]"

text \<open>Three laps of 113.662 seconds, each time the double of that numeral.\<close>

definition three_equal_laps :: "lap list" where
  "three_equal_laps =
     [\<lparr> lap_number = 1, time = nearest_double 113.662 \<rparr>,
      \<lparr> lap_number = 2, time = nearest_double 113.662 \<rparr>,
      \<lparr> lap_number = 3, time = nearest_double 113.662 \<rparr>]"

text \<open>A racing line with two fixes at Barber Motorsports Park among three invalid ones.\<close>

definition example_racing_line :: racing_line where
  "example_racing_line =
     \<lparr> current_line =
         Some [\<lparr> lat = 33.48, lon = - 86.65 \<rparr>, \<lparr> lat = 0, lon = 0 \<rparr>,
               \<lparr> lat = 95, lon = 10 \<rparr>, \<lparr> lat = 33.5, lon = 200 \<rparr>,
               \<lparr> lat = 33.49, lon = - 86.66 \<rparr>],
       optimal_line = Some [\<lparr> lat = 33.48, lon = - 86.65 \<rparr>, \<lparr> lat = 0, lon = 0 \<rparr>] \<rparr>"

text \<open>
  A comparison of drivers 13 and 99 when only driver 13 is loaded, one of drivers 22 and
  13 when both are loaded, and \<open>parseInt\<close> on these ids.
\<close>

definition example_compare_state :: compare_state where
  "example_compare_state = \<lparr> drivers = [example_driver], compareDrivers = [''13'', ''99''] \<rparr>"

definition example_loaded_state :: compare_state where
  "example_loaded_state =
     \<lparr> drivers = [example_driver, \<lparr> id' = ''22'', number = ''22'', best_lap = Some 97.428 \<rparr>],
       compareDrivers = [''22'', ''13''] \<rparr>"

definition example_parseInt :: "string \<Rightarrow> jsnum" where
  "example_parseInt s =
     (if s = ''13'' then Fin 13 else if s = ''22'' then Fin 22
      else if s = ''99'' then Fin 99 else NaN)"

definition example_fallback_row :: comparison_row where
  "example_fallback_row =
     \<lparr> driver_id = ''13'', cmp_best_lap = Num (Fin 98.5), cmp_avg_lap = Num (Fin 98.5),
       cmp_consistency = Num (Fin 0.8), cmp_lap_count = Num (Fin 10) \<rparr>"

text \<open>The state the strategy calculator starts in, and the same state on the last lap.\<close>

definition initial_strategy_state :: "unit strategy_state" where
  "initial_strategy_state =
     \<lparr> currentLap = 10, totalLaps = 27, degradationRate = 0.02, strategy = None,
       loading = False \<rparr>"

definition last_lap_state :: "unit strategy_state" where
  "last_lap_state =
     \<lparr> currentLap = 27, totalLaps = 27, degradationRate = 0.02, strategy = Some (),
       loading = False \<rparr>"

text \<open>An analysis with one lap.\<close>

definition example_analysis :: analysis where
  "example_analysis = \<lparr> lap_count = Some 1, avg_lap_time = Some 98.5 \<rparr>"

section \<open>Evaluating floors of rational literals\<close>

lemma floor_rat_numeral_div [simp]:
  "\<lfloor>(numeral a / numeral b :: rat)\<rfloor> = numeral a div numeral b"
  using floor_divide_of_int_eq [of "numeral a" "numeral b", where ?'a = rat] by simp

lemma floor_rat_neg_numeral_div [simp]:
  "\<lfloor>(- (numeral a / numeral b) :: rat)\<rfloor> = - numeral a div numeral b"
  using floor_divide_of_int_eq [of "- numeral a" "numeral b", where ?'a = rat] by simp

lemma floor_rat_one_div [simp]:
  "\<lfloor>(1 / numeral b :: rat)\<rfloor> = 1 div numeral b"
  using floor_divide_of_int_eq [of 1 "numeral b", where ?'a = rat] by simp

lemma ceiling_rat_numeral_div [simp]:
  "\<lceil>(numeral a / numeral b :: rat)\<rceil> = - (- numeral a div numeral b)"
  unfolding ceiling_def by simp

lemmas double_steps =
  round_double_def nearest_double_def ulp_def binade_def pow2_def round_half_even_def
  bit_length.simps

section \<open>Rounding: exponent and error\<close>

lemma pow2_powi: "pow2 e = 2 powi e"
  by (simp add: pow2_def power_int_def power_one_over inverse_eq_divide)

lemma pow2_pos: "0 < pow2 e"
  by (simp add: pow2_powi)

lemma pow2_strict_mono: "e < e' \<Longrightarrow> pow2 e < pow2 e'"
  unfolding pow2_powi by (rule power_int_strict_increasing) simp_all

lemma pow2_mono: "e \<le> e' \<Longrightarrow> pow2 e \<le> pow2 e'"
  unfolding pow2_powi by (rule power_int_increasing) simp_all

lemma pow2_nat: "pow2 (int k) = 2 ^ k"
  by (simp add: pow2_def)

lemma pow2_minus_nat: "pow2 (- int k) = 1 / 2 ^ k"
  by (simp add: pow2_powi power_int_minus inverse_eq_divide)

lemma pow2_diff: "pow2 (e - int k) = pow2 e / 2 ^ k"
  unfolding pow2_powi by (simp add: power_int_diff)

lemma bit_length_bounds:
  "0 < n \<Longrightarrow> 2 ^ (bit_length n - 1) \<le> n \<and> n < 2 ^ bit_length n"
proof (induction n rule: bit_length.induct)
  case (1 n)
  then have n: "n \<noteq> 0" by simp
  then have bl: "bit_length n = Suc (bit_length (n div 2))"
    by (subst bit_length.simps) simp
  show ?case
  proof (cases "n div 2 = 0")
    case True
    with n have "n = 1" by presburger
    then show ?thesis by (simp add: bit_length.simps)
  next
    case False
    then have pos: "0 < n div 2" by simp
    from "1.IH" [OF n pos]
    have lo: "2 ^ (bit_length (n div 2) - 1) \<le> n div 2"
      and hi: "n div 2 < 2 ^ bit_length (n div 2)" by simp_all
    from False have b1: "bit_length (n div 2) \<noteq> 0"
      by (subst bit_length.simps) simp
    then obtain j where j: "bit_length (n div 2) = Suc j" by (cases "bit_length (n div 2)") auto
    from lo j have "2 * 2 ^ j \<le> 2 * (n div 2)" by simp
    then have l: "2 ^ Suc j \<le> n" by simp
    from hi j have "n div 2 < 2 * 2 ^ j" by simp
    then have "n < 2 * (2 * 2 ^ j)" by presburger
    with l show ?thesis by (simp add: bl j)
  qed
qed

lemma bit_length_pos: "0 < n \<Longrightarrow> 0 < bit_length n"
  by (subst bit_length.simps) simp

lemma binade_bounds:
  assumes "0 < x"
  shows "pow2 (binade x) \<le> x \<and> x < pow2 (binade x + 1)"
proof (cases "1 \<le> x")
  case True
  let ?n = "nat \<lfloor>x\<rfloor>"
  from True have fl: "1 \<le> \<lfloor>x\<rfloor>" by simp
  then have n: "0 < ?n" by simp
  from bit_length_bounds [OF n]
  have lo: "2 ^ (bit_length ?n - 1) \<le> ?n" and hi: "?n < 2 ^ bit_length ?n" by simp_all
  from bit_length_pos [OF n] obtain j where j: "bit_length ?n = Suc j"
    by (cases "bit_length ?n") auto
  have b: "binade x = int j" using True by (simp add: binade_def j)
  have nx: "rat_of_nat ?n \<le> x" using fl by (simp add: of_nat_nat)
  have pn: "rat_of_nat (2 ^ j) \<le> rat_of_nat ?n"
    using lo unfolding j by (simp only: of_nat_le_iff diff_Suc_1)
  have "(2 :: rat) ^ j = rat_of_nat (2 ^ j)" by simp
  also note pn
  also note nx
  finally have l: "2 ^ j \<le> x" .
  have "x < of_int (\<lfloor>x\<rfloor> + 1)" by linarith
  also have "\<dots> = rat_of_nat (?n + 1)" using fl by (simp add: of_nat_nat)
  also have "\<dots> \<le> rat_of_nat (2 ^ Suc j)" using hi unfolding j by (simp only: of_nat_le_iff)
  finally have h: "x < 2 ^ Suc j" by simp
  have "pow2 (int j + 1) = 2 ^ Suc j" using pow2_nat [of "Suc j"] by (simp add: add.commute)
  with l h show ?thesis unfolding b by (simp add: pow2_nat)
next
  case False
  let ?y = "1 / x"
  let ?n = "nat \<lceil>?y\<rceil> - 1"
  from False assms have y1: "1 < ?y" by simp
  then have c2: "2 \<le> \<lceil>?y\<rceil>" by linarith
  then have n: "0 < ?n" by simp
  have nc: "int ?n = \<lceil>?y\<rceil> - 1" using c2 by linarith
  from bit_length_bounds [OF n]
  have lo: "2 ^ (bit_length ?n - 1) \<le> ?n" and hi: "?n < 2 ^ bit_length ?n" by simp_all
  from bit_length_pos [OF n] obtain j where j: "bit_length ?n = Suc j"
    by (cases "bit_length ?n") auto
  have b: "binade x = - int (Suc j)" using False j by (simp add: binade_def)
  have ny: "rat_of_nat ?n < ?y"
  proof -
    have "rat_of_int (\<lceil>?y\<rceil> - 1) < ?y" by linarith
    then show ?thesis using nc by (metis of_int_of_nat_eq)
  qed
  have pn: "rat_of_nat (2 ^ j) \<le> rat_of_nat ?n"
    using lo unfolding j by (simp only: of_nat_le_iff diff_Suc_1)
  have "(2 :: rat) ^ j = rat_of_nat (2 ^ j)" by simp
  also note pn
  also note ny
  finally have yl: "2 ^ j < ?y" .
  have cn: "\<lceil>?y\<rceil> = int (?n + 1)" using nc by linarith
  from cn have cr: "rat_of_int \<lceil>?y\<rceil> = rat_of_int (int (?n + 1))" by (rule arg_cong)
  have "?y \<le> rat_of_int \<lceil>?y\<rceil>" by linarith
  also note cr
  also have "rat_of_int (int (?n + 1)) = rat_of_nat (?n + 1)" by (rule of_int_of_nat_eq)
  also have "\<dots> \<le> rat_of_nat (2 ^ Suc j)" using hi unfolding j by (simp only: of_nat_le_iff)
  finally have yh: "?y \<le> 2 ^ Suc j" by simp
  from yh assms have l: "1 / 2 ^ Suc j \<le> x"
    by (simp add: field_simps)
  from yl assms have h: "x < 1 / 2 ^ j"
    by (simp add: field_simps)
  have p1: "pow2 (- int (Suc j)) = 1 / 2 ^ Suc j" by (rule pow2_minus_nat)
  have "- int (Suc j) + 1 = - int j" by simp
  then have p2: "pow2 (- int (Suc j) + 1) = 1 / 2 ^ j" by (simp only: pow2_minus_nat)
  from l h show ?thesis unfolding b p1 p2 by simp
qed

lemma binade_eqI:
  assumes "pow2 e \<le> x" and "x < pow2 (e + 1)"
  shows "binade x = e"
proof -
  from assms(1) pow2_pos [of e] have x: "0 < x" by simp
  from binade_bounds [OF x]
  have lo: "pow2 (binade x) \<le> x" and hi: "x < pow2 (binade x + 1)" by simp_all
  have "\<not> binade x < e"
  proof
    assume "binade x < e"
    then have "pow2 (binade x + 1) \<le> pow2 e" by (intro pow2_mono) simp
    with hi assms(1) show False by simp
  qed
  moreover have "\<not> e < binade x"
  proof
    assume "e < binade x"
    then have "pow2 (e + 1) \<le> pow2 (binade x)" by (intro pow2_mono) simp
    with lo assms(2) show False by simp
  qed
  ultimately show ?thesis by simp
qed

lemma round_half_even_near:
  "q - 1 / 2 \<le> of_int (round_half_even q) \<and> of_int (round_half_even q) \<le> q + 1 / 2"
proof -
  let ?f = "rat_of_int \<lfloor>q\<rfloor>"
  have f: "?f \<le> q" "q < ?f + 1" by linarith+
  consider "q - ?f < 1 / 2" | "1 / 2 < q - ?f" | "q - ?f = 1 / 2" by linarith
  then show ?thesis
  proof cases
    case 1
    then have "rat_of_int (round_half_even q) = ?f" by (simp add: round_half_even_def)
    with f 1 show ?thesis by linarith
  next
    case 2
    then have "rat_of_int (round_half_even q) = ?f + 1" by (simp add: round_half_even_def)
    with f 2 show ?thesis by linarith
  next
    case 3
    then have "rat_of_int (round_half_even q) = ?f \<or> rat_of_int (round_half_even q) = ?f + 1"
      by (simp add: round_half_even_def)
    with f 3 show ?thesis by linarith
  qed
qed

lemma ulp_pos: "0 < ulp x"
  by (simp add: ulp_def pow2_pos)

lemma nearest_double_lower: "x - ulp x / 2 \<le> nearest_double x"
proof -
  let ?u = "ulp x"
  have u: "0 < ?u" by (rule ulp_pos)
  have "x / ?u - 1 / 2 \<le> of_int (round_half_even (x / ?u))"
    using round_half_even_near [of "x / ?u"] by simp
  then have "(x / ?u - 1 / 2) * ?u \<le> of_int (round_half_even (x / ?u)) * ?u"
    using u by (simp only: mult_le_cancel_right_pos)
  moreover have "(x / ?u - 1 / 2) * ?u = x - ?u / 2" using u by (simp add: field_simps)
  ultimately show ?thesis unfolding nearest_double_def by simp
qed

lemma nearest_double_nonneg: "0 \<le> x \<Longrightarrow> 0 \<le> nearest_double x"
proof -
  assume x: "0 \<le> x"
  have u: "0 < ulp x" by (rule ulp_pos)
  with x have q: "0 \<le> x / ulp x" by simp
  then have "0 \<le> \<lfloor>x / ulp x\<rfloor>" by simp
  then have "0 \<le> round_half_even (x / ulp x)" unfolding round_half_even_def by auto
  then have "0 \<le> rat_of_int (round_half_even (x / ulp x))" by simp
  with u show ?thesis unfolding nearest_double_def by simp
qed

lemma ulp_normal:
  assumes "pow2 (- 1022) \<le> x"
  shows "ulp x \<le> x / 2 ^ 52"
proof -
  from assms pow2_pos [of "- 1022"] have x: "0 < x" by simp
  from binade_bounds [OF x]
  have lo: "pow2 (binade x) \<le> x" and hi: "x < pow2 (binade x + 1)" by simp_all
  have "\<not> binade x + 1 \<le> - 1022"
  proof
    assume "binade x + 1 \<le> - 1022"
    then have "pow2 (binade x + 1) \<le> pow2 (- 1022)" by (rule pow2_mono)
    with hi assms show False by simp
  qed
  then have m: "max (binade x) (- 1022) = binade x" by simp
  have "ulp x = pow2 (binade x - int 52)" using x by (simp add: ulp_def m)
  also have "\<dots> = pow2 (binade x) / 2 ^ 52" by (rule pow2_diff)
  also have "\<dots> \<le> x / 2 ^ 52" using lo by (simp add: divide_right_mono)
  finally show ?thesis .
qed

lemma ulp_subnormal:
  assumes "0 < x" and "x < pow2 (- 1022)"
  shows "ulp x = pow2 (- 1074)"
proof -
  from binade_bounds [OF assms(1)] have lo: "pow2 (binade x) \<le> x" by simp
  have "\<not> - 1022 \<le> binade x"
  proof
    assume "- 1022 \<le> binade x"
    then have "pow2 (- 1022) \<le> pow2 (binade x)" by (rule pow2_mono)
    with lo assms(2) show False by simp
  qed
  then have m: "max (binade x) (- 1022) = - 1022" by simp
  show ?thesis using assms(1) by (simp add: ulp_def m)
qed

lemma nearest_double_relative:
  assumes "0 \<le> x"
  shows "(1 - 1 / 2 ^ 53) * x - 1 / 2 ^ 1075 \<le> nearest_double x"
proof -
  consider "x = 0" | "0 < x" "x < pow2 (- 1022)" | "pow2 (- 1022) \<le> x"
    using assms by fastforce
  then show ?thesis
  proof cases
    case 1
    then show ?thesis using nearest_double_nonneg [of 0] by simp
  next
    case 2
    have "pow2 (- 1074) = 1 / 2 ^ 1074" using pow2_minus_nat [of 1074] by simp
    with ulp_subnormal [OF 2] have "ulp x / 2 = 1 / 2 ^ 1075" by simp
    with nearest_double_lower [of x] have "x - 1 / 2 ^ 1075 \<le> nearest_double x" by simp
    moreover have "(1 - 1 / 2 ^ 53) * x \<le> x" using assms by (simp add: mult_left_le_one_le)
    ultimately show ?thesis by linarith
  next
    case 3
    from ulp_normal [OF 3] have "ulp x / 2 \<le> x / 2 ^ 53" by simp
    with nearest_double_lower [of x] have "x - x / 2 ^ 53 \<le> nearest_double x" by linarith
    moreover have "(1 - 1 / 2 ^ 53) * x = x - x / 2 ^ 53" by (simp add: algebra_simps)
    ultimately show ?thesis by simp
  qed
qed

lemma nearest_double_eqI:
  assumes "pow2 e \<le> \<bar>x\<bar>" and "\<bar>x\<bar> < pow2 (e + 1)"
  shows "nearest_double x
    = of_int (round_half_even (x / pow2 (max e (- 1022) - 52))) * pow2 (max e (- 1022) - 52)"
  using binade_eqI [OF assms] by (simp add: nearest_double_def ulp_def)

text \<open>
  The model of the rounding at the ends of the range: the largest double and the
  overflow above it, and the subnormal numbers, which are the multiples of \<open>2^-1074\<close>.
\<close>

lemma double_range_examples:
  "round_double (2 ^ 1024 - 2 ^ 970) = PlusInfinity"
  "round_double (- (2 ^ 1024 - 2 ^ 970)) = MinusInfinity"
  "round_double (2 ^ 1024 - 2 ^ 970 - 1) = Finite (2 ^ 1024 - 2 ^ 971)"
  "nearest_double (3 / 2 ^ 1075) = 1 / 2 ^ 1073"
  "nearest_double (1 / 2 ^ 1075) = 0"
proof -
  show "round_double (2 ^ 1024 - 2 ^ 970) = PlusInfinity"
    by (simp add: round_double_def)
  show "round_double (- (2 ^ 1024 - 2 ^ 970)) = MinusInfinity"
    by (simp add: round_double_def)
  have "nearest_double (2 ^ 1024 - 2 ^ 970 - 1) = 2 ^ 1024 - 2 ^ 971"
    by (subst nearest_double_eqI [where e = 1023])
      (simp_all add: pow2_def round_half_even_def)
  then show "round_double (2 ^ 1024 - 2 ^ 970 - 1) = Finite (2 ^ 1024 - 2 ^ 971)"
    by (simp add: round_double_def)
  show "nearest_double (3 / 2 ^ 1075) = 1 / 2 ^ 1073"
    by (subst nearest_double_eqI [where e = "- 1074"])
      (simp_all add: pow2_def round_half_even_def)
  show "nearest_double (1 / 2 ^ 1075) = 0"
    by (subst nearest_double_eqI [where e = "- 1075"])
      (simp_all add: pow2_def round_half_even_def)
qed

section \<open>Lap summary: best and average\<close>

lemma sum_list_lower: "(\<forall>x \<in> set xs. m \<le> x) \<Longrightarrow> of_nat (length xs) * (m :: rat) \<le> sum_list xs"
proof (induction xs)
  case Nil
  then show ?case by simp
next
  case (Cons x xs)
  then have "m \<le> x" and "of_nat (length xs) * m \<le> sum_list xs" by simp_all
  then show ?case by (simp add: algebra_simps)
qed

lemma fold_min_Min: "fold min ts (t :: rat) = Min (set (t # ts))"
  by (rule Min.set_eq_fold [symmetric])

lemma mean_lower:
  assumes "xs \<noteq> []" and "\<forall>x \<in> set xs. (m :: rat) \<le> x"
  shows "m \<le> sum_list xs / of_nat (length xs)"
proof -
  have pos: "(0 :: rat) < of_nat (length xs)" using assms(1) by simp
  have "of_nat (length xs) * m \<le> sum_list xs" using assms(2) by (rule sum_list_lower)
  then have "m * of_nat (length xs) \<le> sum_list xs" by (simp add: mult.commute)
  then show ?thesis using pos by (simp add: pos_le_divide_eq)
qed

lemma round_double_nonneg:
  assumes "0 \<le> x"
  shows "round_double x = PlusInfinity \<or> round_double x = Finite (nearest_double x)"
proof -
  have "(0 :: rat) < 2 ^ 1024 - 2 ^ 970" by simp
  with assms have "\<not> x \<le> - (2 ^ 1024 - 2 ^ 970)" by linarith
  then show ?thesis unfolding round_double_def by simp
qed

lemma foldl_PlusInfinity: "foldl double_add PlusInfinity xs = PlusInfinity"
  by (induction xs) simp_all

lemma sum_of_doubles_lower:
  assumes "0 \<le> a" and "\<forall>x \<in> set xs. 0 \<le> x"
    and "foldl double_add (Finite a) xs = Finite S"
  shows "0 \<le> S
    \<and> (1 - 1 / 2 ^ 53) ^ length xs * (a + sum_list xs) - of_nat (length xs) * (1 / 2 ^ 1075) \<le> S"
  using assms
proof (induction xs arbitrary: a)
  case Nil
  then show ?case by simp
next
  case (Cons x xs)
  define c :: rat where "c = 1 - 1 / 2 ^ 53"
  define dl :: rat where "dl = 1 / 2 ^ 1075"
  have c: "0 \<le> c" "c \<le> 1" by (simp_all add: c_def)
  have dl: "0 \<le> dl" by (simp add: dl_def)
  from Cons.prems have x: "0 \<le> x" and xs: "\<forall>y \<in> set xs. 0 \<le> y" by simp_all
  with Cons.prems(1) have ax: "0 \<le> a + x" by simp
  from Cons.prems(3) have run: "foldl double_add (round_double (a + x)) xs = Finite S" by simp
  have "round_double (a + x) \<noteq> PlusInfinity"
  proof
    assume "round_double (a + x) = PlusInfinity"
    with run show False by (simp add: foldl_PlusInfinity)
  qed
  with round_double_nonneg [OF ax]
  have r: "round_double (a + x) = Finite (nearest_double (a + x))" by simp
  define a' where "a' = nearest_double (a + x)"
  have a'0: "0 \<le> a'" unfolding a'_def using ax by (rule nearest_double_nonneg)
  have a'l: "c * (a + x) - dl \<le> a'"
    unfolding a'_def c_def dl_def using ax by (rule nearest_double_relative)
  from run r have run': "foldl double_add (Finite a') xs = Finite S" by (simp add: a'_def)
  from Cons.IH [OF a'0 xs run']
  have S0: "0 \<le> S"
    and IH: "c ^ length xs * (a' + sum_list xs) - of_nat (length xs) * dl \<le> S"
    by (simp_all add: c_def dl_def)
  define p where "p = c ^ length xs"
  have p: "0 \<le> p" "p \<le> 1" unfolding p_def using c by (simp_all add: power_le_one)
  have sg: "0 \<le> sum_list xs" using xs by (simp add: sum_list_nonneg)
  define t1 where "t1 = p * (c * (a + x))"
  define t2 where "t2 = p * dl"
  define t3 where "t3 = p * a'"
  define t4 where "t4 = p * (c * sum_list xs)"
  define t5 where "t5 = p * sum_list xs"
  have "p * (c * (a + x) - dl) \<le> p * a'" using a'l p(1) by (rule mult_left_mono)
  then have f1: "t1 - t2 \<le> t3" by (simp add: t1_def t2_def t3_def algebra_simps)
  have f2: "t2 \<le> dl" unfolding t2_def using p dl by (simp add: mult_left_le_one_le)
  have "c * sum_list xs \<le> sum_list xs" using c sg by (simp add: mult_left_le_one_le)
  then have f3: "t4 \<le> t5" unfolding t4_def t5_def using p(1) by (rule mult_left_mono)
  have e1: "c ^ length (x # xs) * (a + sum_list (x # xs)) = t1 + t4"
    by (simp add: t1_def t4_def p_def algebra_simps)
  have e2: "c ^ length xs * (a' + sum_list xs) = t3 + t5"
    by (simp add: t3_def t5_def p_def algebra_simps)
  have e3: "of_nat (length (x # xs)) * dl = of_nat (length xs) * dl + dl"
    by (simp add: algebra_simps)
  from IH have "t3 + t5 - of_nat (length xs) * dl \<le> S" unfolding e2 .
  with f1 f2 f3 have "t1 + t4 - (of_nat (length xs) * dl + dl) \<le> S" by linarith
  then have "c ^ length (x # xs) * (a + sum_list (x # xs)) - of_nat (length (x # xs)) * dl \<le> S"
    unfolding e1 e3 .
  with S0 show ?case unfolding c_def dl_def by simp
qed

lemma sum_of_doubles_not_minus:
  assumes "0 \<le> a" and "\<forall>x \<in> set xs. 0 \<le> x"
  shows "foldl double_add (Finite a) xs \<noteq> MinusInfinity"
  using assms
proof (induction xs arbitrary: a)
  case Nil
  then show ?case by simp
next
  case (Cons x xs)
  then have ax: "0 \<le> a + x" by simp
  from round_double_nonneg [OF ax] show ?case
  proof
    assume "round_double (a + x) = PlusInfinity"
    then show ?thesis by (simp add: foldl_PlusInfinity)
  next
    assume r: "round_double (a + x) = Finite (nearest_double (a + x))"
    have "0 \<le> nearest_double (a + x)" using ax by (rule nearest_double_nonneg)
    with Cons have "foldl double_add (Finite (nearest_double (a + x))) xs \<noteq> MinusInfinity"
      by simp
    with r show ?thesis by simp
  qed
qed

lemma rounded_mean_lower:
  assumes "xs \<noteq> []" and "\<forall>x \<in> set xs. m \<le> x" and "0 \<le> m"
  shows "double_div (foldl double_add (Finite 0) xs) (length xs) \<noteq> MinusInfinity
    \<and> (\<forall>A. double_div (foldl double_add (Finite 0) xs) (length xs) = Finite A \<longrightarrow>
          (1 - 1 / 2 ^ 53) ^ (length xs + 1) * m - 1 / 2 ^ 1074 \<le> A)"
proof -
  define c :: rat where "c = 1 - 1 / 2 ^ 53"
  define dl :: rat where "dl = 1 / 2 ^ 1075"
  define n :: rat where "n = of_nat (length xs)"
  have c: "0 \<le> c" "c \<le> 1" by (simp_all add: c_def)
  have dl: "0 \<le> dl" by (simp add: dl_def)
  have n: "0 < n" using assms(1) by (simp add: n_def)
  from assms(2,3) have nn: "\<forall>x \<in> set xs. 0 \<le> x" by fastforce
  have mean: "m \<le> sum_list xs / n" unfolding n_def using assms(1,2) by (rule mean_lower)
  show ?thesis
  proof (cases "foldl double_add (Finite 0) xs")
    case PlusInfinity
    then show ?thesis by simp
  next
    case MinusInfinity
    with sum_of_doubles_not_minus [of 0 xs] nn show ?thesis by simp
  next
    case (Finite S)
    from sum_of_doubles_lower [OF _ nn Finite]
    have S0: "0 \<le> S" and Sl: "c ^ length xs * sum_list xs - n * dl \<le> S"
      by (simp_all add: c_def dl_def n_def)
    define p where "p = c ^ length xs"
    have p: "0 \<le> p" "p \<le> 1" unfolding p_def using c by (simp_all add: power_le_one)
    have q0: "0 \<le> S / n" using S0 n by simp
    have "(p * sum_list xs - n * dl) / n \<le> S / n"
      using Sl n unfolding p_def by (simp only: divide_right_mono less_imp_le)
    moreover have "(p * sum_list xs - n * dl) / n = p * (sum_list xs / n) - dl"
      using n by (simp add: field_simps)
    moreover have "p * m \<le> p * (sum_list xs / n)" using mean p(1) by (rule mult_left_mono)
    ultimately have ql: "p * m - dl \<le> S / n" by linarith
    have "c * (p * m - dl) \<le> c * (S / n)" using ql c(1) by (rule mult_left_mono)
    moreover have "c * dl \<le> dl" using c dl by (simp add: mult_left_le_one_le)
    moreover have "c * (p * m - dl) = c * (p * m) - c * dl" by (simp add: algebra_simps)
    ultimately have cq: "c * (p * m) - dl \<le> c * (S / n)" by linarith
    have pw: "c ^ (length xs + 1) * m = c * (p * m)" by (simp add: p_def)
    have two: "(1 :: rat) / 2 ^ 1074 = dl + dl" by (simp add: dl_def)
    have div: "double_div (foldl double_add (Finite 0) xs) (length xs) = round_double (S / n)"
      by (simp add: Finite n_def)
    from round_double_nonneg [OF q0] show ?thesis
    proof
      assume "round_double (S / n) = PlusInfinity"
      with div show ?thesis by simp
    next
      assume r: "round_double (S / n) = Finite (nearest_double (S / n))"
      have "c * (S / n) - dl \<le> nearest_double (S / n)"
        unfolding c_def dl_def using q0 by (rule nearest_double_relative)
      with cq have "c * (p * m) - (dl + dl) \<le> nearest_double (S / n)" by linarith
      then have "c ^ (length xs + 1) * m - 1 / 2 ^ 1074 \<le> nearest_double (S / n)"
        unfolding pw two .
      with div r show ?thesis by (simp add: c_def)
    qed
  qed
qed

text \<open>
  C1, as stated, fails: of three laps of 113.662 seconds the best lap is 113.662, and the
  average lap, with the sum and the quotient rounded as doubles, is one step of
  \<open>2^-46\<close> below it (113.66199999999999).
\<close>

theorem rounded_average_below_best_counterexample:
  "nearest_double 113.662 = 3999126100360823 / 2 ^ 45
   \<and> driver_summary example_driver (Http True (Some three_equal_laps))
       = Some \<lparr> driver = number example_driver, bestLap = nearest_double 113.662,
                 avgLap = Finite (nearest_double 113.662 - 1 / 2 ^ 46), lapCount = 3 \<rparr>
   \<and> nearest_double 113.662 - 1 / 2 ^ 46 < nearest_double 113.662"
  by (simp add: driver_summary_def summary_from_laps_def lapTimes_of_def three_equal_laps_def
      double_steps)

text \<open>
  C1, amended. Whenever the laps of a driver hold at least one time above 0, the summary
  exists, its best lap is the minimum of the times above 0 and at most every one of
  them, and its average lap is their mean as doubles compute it: the times added from
  left to right, each sum rounded, and the last sum divided by their number and rounded.
  The best lap is at most the exact mean of the times above 0, and the average lap is
  below the best lap by no more than the rounding: it is \<open>+Infinity\<close>, or at least the
  best lap times \<open>(1 - 2^-53)^(n+1)\<close> less \<open>2^-1074\<close>, for \<open>n\<close> times above 0.
\<close>

theorem summary_best_and_rounded_average:
  assumes "\<exists>l \<in> set laps. 0 < time l"
  shows "\<exists>s. driver_summary d (Http True (Some laps)) = Some s
           \<and> bestLap s = Min {time l | l. l \<in> set laps \<and> 0 < time l}
           \<and> (\<forall>l \<in> set laps. 0 < time l \<longrightarrow> bestLap s \<le> time l)
           \<and> avgLap s = double_div (foldl double_add (Finite 0) [time l. l \<leftarrow> laps, 0 < time l])
                          (length [time l. l \<leftarrow> laps, 0 < time l])
           \<and> bestLap s \<le> sum_list [time l. l \<leftarrow> laps, 0 < time l]
                          / of_nat (length [time l. l \<leftarrow> laps, 0 < time l])
           \<and> avgLap s \<noteq> MinusInfinity
           \<and> (\<forall>a. avgLap s = Finite a \<longrightarrow>
                 (1 - 1 / 2 ^ 53) ^ (length [time l. l \<leftarrow> laps, 0 < time l] + 1) * bestLap s
                   - 1 / 2 ^ 1074 \<le> a)"
proof -
  let ?v = "lapTimes_of laps"
  have v_eq: "?v = [time l. l \<leftarrow> laps, 0 < time l]"
    unfolding lapTimes_of_def by (induction laps) simp_all
  have v_set: "set ?v = {time l | l. l \<in> set laps \<and> 0 < time l}"
    unfolding lapTimes_of_def by auto
  from assms have ne: "?v \<noteq> []" and lne: "0 < length laps"
    unfolding lapTimes_of_def by (auto simp: filter_empty_conv)
  then obtain t ts where tts: "?v = t # ts" by (cases ?v) auto
  define s where "s = \<lparr> driver = number d, bestLap = fold min ts t,
      avgLap = double_div (foldl double_add (Finite 0) ?v) (length ?v), lapCount = length laps \<rparr>"
  have run: "driver_summary d (Http True (Some laps)) = Some s"
    using lne tts by (simp add: driver_summary_def summary_from_laps_def s_def Let_def)
  have best: "bestLap s = Min (set ?v)"
    unfolding tts by (simp add: s_def fold_min_Min del: set_simps)
  have avg: "avgLap s = double_div (foldl double_add (Finite 0) ?v) (length ?v)"
    by (simp add: s_def)
  have low: "\<forall>x \<in> set ?v. bestLap s \<le> x"
    unfolding best by simp
  have "Min (set ?v) \<in> set ?v" using ne by (intro Min_in) simp_all
  then have "0 < Min (set ?v)" unfolding lapTimes_of_def by simp
  then have pos: "0 \<le> bestLap s" unfolding best by simp
  from rounded_mean_lower [OF ne low pos]
  have bound: "avgLap s \<noteq> MinusInfinity
      \<and> (\<forall>a. avgLap s = Finite a \<longrightarrow>
            (1 - 1 / 2 ^ 53) ^ (length ?v + 1) * bestLap s - 1 / 2 ^ 1074 \<le> a)"
    unfolding avg .
  have "bestLap s \<le> sum_list ?v / of_nat (length ?v)"
    using ne low by (rule mean_lower)
  then have c5: "bestLap s \<le> sum_list [time l. l \<leftarrow> laps, 0 < time l]
                          / of_nat (length [time l. l \<leftarrow> laps, 0 < time l])"
    unfolding v_eq .
  have c3: "\<forall>l \<in> set laps. 0 < time l \<longrightarrow> bestLap s \<le> time l"
    using low unfolding v_set by blast
  have c2: "bestLap s = Min {time l | l. l \<in> set laps \<and> 0 < time l}"
    using best unfolding v_set .
  have c4: "avgLap s = double_div (foldl double_add (Finite 0) [time l. l \<leftarrow> laps, 0 < time l])
                          (length [time l. l \<leftarrow> laps, 0 < time l])"
    using avg unfolding v_eq .
  from bound have c6: "avgLap s \<noteq> MinusInfinity"
    and c7: "\<forall>a. avgLap s = Finite a \<longrightarrow>
                 (1 - 1 / 2 ^ 53) ^ (length [time l. l \<leftarrow> laps, 0 < time l] + 1) * bestLap s
                   - 1 / 2 ^ 1074 \<le> a"
    unfolding v_eq by simp_all
  from run c2 c3 c4 c5 c6 c7 show ?thesis by (intro exI [of _ s] conjI) assumption+
qed

theorem summary_best_and_rounded_average_witness:
  "(\<exists>l \<in> set example_laps. 0 < time l)
   \<and> (\<exists>s. driver_summary example_driver (Http True (Some example_laps)) = Some s
          \<and> bestLap s = 96.5 \<and> avgLap s = Finite 172.625
          \<and> bestLap s \<le> (96.5 + 96.8 + 97.0 + 400.2) / 4
          \<and> (1 - 1 / 2 ^ 53) ^ 5 * bestLap s - 1 / 2 ^ 1074 \<le> 172.625)"
proof -
  have h: "\<exists>l \<in> set example_laps. 0 < time l"
    by (simp add: example_laps_def)
  have v: "[time l. l \<leftarrow> example_laps, 0 < time l] = [96.5, 96.8, 97.0, 400.2]"
    by (simp add: example_laps_def)
  have run: "driver_summary example_driver (Http True (Some example_laps))
      = Some \<lparr> driver = number example_driver, bestLap = 96.5, avgLap = Finite 172.625,
                lapCount = 4 \<rparr>"
    by (simp add: driver_summary_def summary_from_laps_def lapTimes_of_def example_laps_def
        double_steps)
  from summary_best_and_rounded_average [OF h, of example_driver] obtain s where
    s: "driver_summary example_driver (Http True (Some example_laps)) = Some s"
       "bestLap s \<le> sum_list [time l. l \<leftarrow> example_laps, 0 < time l]
                     / of_nat (length [time l. l \<leftarrow> example_laps, 0 < time l])"
       "\<forall>a. avgLap s = Finite a \<longrightarrow>
            (1 - 1 / 2 ^ 53) ^ (length [time l. l \<leftarrow> example_laps, 0 < time l] + 1) * bestLap s
              - 1 / 2 ^ 1074 \<le> a"
    by blast
  from s(1) run
  have "s = \<lparr> driver = number example_driver, bestLap = 96.5, avgLap = Finite 172.625,
              lapCount = 4 \<rparr>"
    by simp
  then have b: "bestLap s = 96.5" and a: "avgLap s = Finite 172.625" by simp_all
  from s(2) have m: "bestLap s \<le> (96.5 + 96.8 + 97.0 + 400.2) / 4" unfolding v by simp
  from s(3) a have "(1 - 1 / 2 ^ 53) ^ (length [96.5 :: rat, 96.8, 97.0, 400.2] + 1) * bestLap s
      - 1 / 2 ^ 1074 \<le> 172.625"
    unfolding v by blast
  moreover have "length [96.5 :: rat, 96.8, 97.0, 400.2] + 1 = 5" by simp
  ultimately have r: "(1 - 1 / 2 ^ 53) ^ 5 * bestLap s - 1 / 2 ^ 1074 \<le> 172.625"
    by (simp only:)
  from h s(1) b a m r show ?thesis by blast
qed

text \<open>Two laps of the largest double: the sum overflows, and the average is \<open>+Infinity\<close>.\<close>

lemma summary_average_overflows:
  "driver_summary example_driver
     (Http True (Some [\<lparr> lap_number = 1, time = 2 ^ 1024 - 2 ^ 971 \<rparr>,
                       \<lparr> lap_number = 2, time = 2 ^ 1024 - 2 ^ 971 \<rparr>]))
   = Some \<lparr> driver = number example_driver, bestLap = 2 ^ 1024 - 2 ^ 971,
             avgLap = PlusInfinity, lapCount = 2 \<rparr>"
proof -
  have "nearest_double (2 ^ 1024 - 2 ^ 971) = 2 ^ 1024 - 2 ^ 971"
    by (subst nearest_double_eqI [where e = 1023])
      (simp_all add: pow2_def round_half_even_def)
  then have one: "round_double (0 + (2 ^ 1024 - 2 ^ 971)) = Finite (2 ^ 1024 - 2 ^ 971)"
    by (simp add: round_double_def)
  have two: "round_double (2 ^ 1024 - 2 ^ 971 + (2 ^ 1024 - 2 ^ 971)) = PlusInfinity"
    by (simp add: round_double_def)
  have "double_div (foldl double_add (Finite 0) [2 ^ 1024 - 2 ^ 971, 2 ^ 1024 - 2 ^ 971])
        (length [2 ^ 1024 - 2 ^ 971 :: rat, 2 ^ 1024 - 2 ^ 971])
      = PlusInfinity"
    by (simp only: foldl.simps double_add.simps double_div.simps one two)
  then show ?thesis
    by (simp add: driver_summary_def summary_from_laps_def lapTimes_of_def)
qed

text \<open>
  The other branches of the callback: \<open>null\<close> after an exception, and the fallback
  from \<open>driver.best_lap\<close> for a response that is not \<open>res.ok\<close>, for no laps and for no
  time above 0.
\<close>

lemma summary_other_branches:
  "driver_summary d Threw = None"
  "driver_summary d (Http False data) = summary_fallback d"
  "driver_summary d (Http True None) = summary_fallback d"
  "driver_summary d (Http True (Some [])) = summary_fallback d"
  "driver_summary d (Http True (Some [\<lparr> lap_number = 1, time = 0 \<rparr>])) = summary_fallback d"
  "summary_fallback example_driver = None"
  "summary_fallback (example_driver \<lparr> best_lap := Some 0 \<rparr>) = None"
  "summary_fallback (example_driver \<lparr> best_lap := Some 97.5 \<rparr>)
     = Some \<lparr> driver = ''13'', bestLap = 97.5, avgLap = Finite 99, lapCount = 10 \<rparr>"
  by (simp_all add: driver_summary_def summary_from_laps_def lapTimes_of_def
      summary_fallback_def example_driver_def double_steps)

text \<open>
  C2, as stated, fails: on the laps \<open>[96.5, 96.8, 97.0, 400.2]\<close> the average lap is not the
  mean of the first three, exact or rounded, and 400.2 is among the times the summary is
  computed from.
\<close>

theorem example_average_counts_outlier_counterexample:
  "map_option avgLap (driver_summary example_driver (Http True (Some example_laps)))
     \<noteq> Some (Finite ((96.5 + 96.8 + 97.0) / 3))
   \<and> map_option avgLap (driver_summary example_driver (Http True (Some example_laps)))
     \<noteq> Some (round_double ((96.5 + 96.8 + 97.0) / 3))
   \<and> 400.2 \<in> set (lapTimes_of example_laps)"
  by (simp add: driver_summary_def summary_from_laps_def lapTimes_of_def example_laps_def
      double_steps)

text \<open>
  C2, amended. On the laps \<open>[96.5, 96.8, 97.0, 400.2]\<close> the best lap is 96.5 and the
  average lap is the mean of all four times, 400.2 included: a time is left out only when
  it is not above 0. With the fourth time 0 instead, the average is the mean of the first
  three, rounded to the nearest double (96.76666666666667). The summaries are the same
  when each time is the double nearest to its numeral.
\<close>

theorem example_summary_over_four_laps:
  "lapTimes_of example_laps = [96.5, 96.8, 97.0, 400.2]
   \<and> driver_summary example_driver (Http True (Some example_laps))
       = Some \<lparr> driver = number example_driver, bestLap = 96.5,
                 avgLap = Finite ((96.5 + 96.8 + 97.0 + 400.2) / 4), lapCount = 4 \<rparr>
   \<and> lapTimes_of (example_laps [3 := \<lparr> lap_number = 4, time = 0 \<rparr>]) = [96.5, 96.8, 97.0]
   \<and> map_option avgLap (driver_summary example_driver
         (Http True (Some (example_laps [3 := \<lparr> lap_number = 4, time = 0 \<rparr>]))))
       = Some (round_double ((96.5 + 96.8 + 97.0) / 3))
   \<and> driver_summary example_driver
         (Http True (Some (map (\<lambda>l. l \<lparr> time := nearest_double (time l) \<rparr>) example_laps)))
       = Some \<lparr> driver = number example_driver, bestLap = 96.5,
                 avgLap = Finite ((96.5 + 96.8 + 97.0 + 400.2) / 4), lapCount = 4 \<rparr>
   \<and> map_option avgLap (driver_summary example_driver
         (Http True (Some (map (\<lambda>l. l \<lparr> time := nearest_double (time l) \<rparr>)
            (example_laps [3 := \<lparr> lap_number = 4, time = 0 \<rparr>])))))
       = Some (round_double ((96.5 + 96.8 + 97.0) / 3))"
proof -
  have exact: "lapTimes_of example_laps = [96.5, 96.8, 97.0, 400.2]
      \<and> driver_summary example_driver (Http True (Some example_laps))
          = Some \<lparr> driver = number example_driver, bestLap = 96.5,
                    avgLap = Finite ((96.5 + 96.8 + 97.0 + 400.2) / 4), lapCount = 4 \<rparr>
      \<and> lapTimes_of (example_laps [3 := \<lparr> lap_number = 4, time = 0 \<rparr>]) = [96.5, 96.8, 97.0]
      \<and> map_option avgLap (driver_summary example_driver
            (Http True (Some (example_laps [3 := \<lparr> lap_number = 4, time = 0 \<rparr>]))))
          = Some (round_double ((96.5 + 96.8 + 97.0) / 3))"
    by (simp add: driver_summary_def summary_from_laps_def lapTimes_of_def example_laps_def
        double_steps)
  have d: "nearest_double (193 / 2) = 193 / 2"
    "nearest_double (484 / 5) = 6811694436397875 / 2 ^ 46"
    "nearest_double 97 = 97" "nearest_double (2001 / 5) = 7040392854975283 / 2 ^ 44"
    "nearest_double 0 = 0"
    by (simp_all add: double_steps)
  have four: "map (\<lambda>l. l \<lparr> time := nearest_double (time l) \<rparr>) example_laps
      = [\<lparr> lap_number = 1, time = 96.5 \<rparr>,
         \<lparr> lap_number = 2, time = 6811694436397875 / 2 ^ 46 \<rparr>,
         \<lparr> lap_number = 3, time = 97 \<rparr>,
         \<lparr> lap_number = 4, time = 7040392854975283 / 2 ^ 44 \<rparr>]"
    by (simp add: example_laps_def d)
  have three: "map (\<lambda>l. l \<lparr> time := nearest_double (time l) \<rparr>)
        (example_laps [3 := \<lparr> lap_number = 4, time = 0 \<rparr>])
      = [\<lparr> lap_number = 1, time = 96.5 \<rparr>,
         \<lparr> lap_number = 2, time = 6811694436397875 / 2 ^ 46 \<rparr>,
         \<lparr> lap_number = 3, time = 97 \<rparr>,
         \<lparr> lap_number = 4, time = 0 \<rparr>]"
    by (simp add: example_laps_def d)
  have doubles: "driver_summary example_driver
        (Http True (Some (map (\<lambda>l. l \<lparr> time := nearest_double (time l) \<rparr>) example_laps)))
      = Some \<lparr> driver = number example_driver, bestLap = 96.5,
                avgLap = Finite ((96.5 + 96.8 + 97.0 + 400.2) / 4), lapCount = 4 \<rparr>"
    unfolding four
    by (simp add: driver_summary_def summary_from_laps_def lapTimes_of_def double_steps)
  have doubles3: "map_option avgLap (driver_summary example_driver
        (Http True (Some (map (\<lambda>l. l \<lparr> time := nearest_double (time l) \<rparr>)
           (example_laps [3 := \<lparr> lap_number = 4, time = 0 \<rparr>])))))
      = Some (round_double ((96.5 + 96.8 + 97.0) / 3))"
    unfolding three
    by (simp add: driver_summary_def summary_from_laps_def lapTimes_of_def double_steps)
  from exact doubles doubles3 show ?thesis by (intro conjI) (elim conjE; assumption)+
qed

section \<open>Racing line: what the filter lets through\<close>

lemma line_filter_in_range:
  "line_filter p \<Longrightarrow> \<not> (\<bar>lat p\<bar> > 90 \<or> \<bar>lon p\<bar> > 180)"
  by (simp add: line_filter_def)

lemma line_map_filtered: "line_filter p \<Longrightarrow> line_map p = (lat p, lon p)"
  using line_filter_in_range [of p] by (simp add: line_map_def Let_def)

lemma rendered_pair_valid:
  assumes "c \<in> set (map line_map (filter line_filter ps))"
  shows "c \<noteq> (0, 0) \<and> \<not> (\<bar>fst c\<bar> > 90 \<or> \<bar>snd c\<bar> > 180)"
proof -
  from assms obtain p where p: "line_filter p" and c: "c = line_map p" by auto
  from p c have "c = (lat p, lon p)" by (simp add: line_map_filtered)
  with p show ?thesis by (auto simp: line_filter_def)
qed

text \<open>
  C3. The filter of the racing-line coordinates rejects every fix at \<open>(0, 0)\<close> and every
  fix with \<open>|lat| > 90\<close> or \<open>|lon| > 180\<close>, and no pair of the rendered current line or
  optimal line is \<open>(0, 0)\<close> or out of range.
\<close>

theorem rendered_lines_hold_no_invalid_fix:
  "((lat p = 0 \<and> lon p = 0) \<or> \<bar>lat p\<bar> > 90 \<or> \<bar>lon p\<bar> > 180 \<longrightarrow> \<not> line_filter p)
   \<and> (\<forall>c \<in> set (currentLineCoords rl) \<union> set (optimalLineCoords rl).
         c \<noteq> (0, 0) \<and> \<not> (\<bar>fst c\<bar> > 90 \<or> \<bar>snd c\<bar> > 180))"
proof -
  have "(lat p = 0 \<and> lon p = 0) \<or> \<bar>lat p\<bar> > 90 \<or> \<bar>lon p\<bar> > 180 \<longrightarrow> \<not> line_filter p"
    by (auto simp: line_filter_def)
  moreover have "c \<noteq> (0, 0) \<and> \<not> (\<bar>fst c\<bar> > 90 \<or> \<bar>snd c\<bar> > 180)"
    if "c \<in> set (currentLineCoords rl) \<union> set (optimalLineCoords rl)" for c
  proof -
    from that obtain ps where "c \<in> set (map line_map (filter line_filter ps))"
      by (auto simp: currentLineCoords_def optimalLineCoords_def split: option.splits)
    then show ?thesis by (rule rendered_pair_valid)
  qed
  ultimately show ?thesis by blast
qed

theorem rendered_lines_hold_no_invalid_fix_witness:
  "currentLineCoords (Some example_racing_line) = [(33.48, - 86.65), (33.49, - 86.66)]
   \<and> \<not> line_filter \<lparr> lat = 95, lon = 10 \<rparr>
   \<and> (0, 0) \<notin> set (currentLineCoords (Some example_racing_line))
   \<and> (95, 10) \<notin> set (optimalLineCoords (Some example_racing_line))"
proof -
  have run: "currentLineCoords (Some example_racing_line) = [(33.48, - 86.65), (33.49, - 86.66)]"
    by (simp add: currentLineCoords_def example_racing_line_def line_filter_def line_map_def)
  have out: "\<bar>lat \<lparr> lat = 95, lon = 10 \<rparr>\<bar> > (90 :: rat)" by simp
  from rendered_lines_hold_no_invalid_fix
         [of "\<lparr> lat = 95, lon = 10 \<rparr>" "Some example_racing_line"] out
  have rej: "\<not> line_filter \<lparr> lat = 95, lon = 10 \<rparr>"
    and all: "\<forall>c \<in> set (currentLineCoords (Some example_racing_line))
                    \<union> set (optimalLineCoords (Some example_racing_line)).
                c \<noteq> (0, 0) \<and> \<not> (\<bar>fst c\<bar> > 90 \<or> \<bar>snd c\<bar> > 180)"
    by blast+
  from all have "(0, 0) \<notin> set (currentLineCoords (Some example_racing_line))" by blast
  moreover have "(95, 10) \<notin> set (optimalLineCoords (Some example_racing_line))"
  proof
    assume "(95, 10) \<in> set (optimalLineCoords (Some example_racing_line))"
    with all have "\<not> (\<bar>fst (95 :: rat, 10 :: rat)\<bar> > 90 \<or> \<bar>snd (95 :: rat, 10 :: rat)\<bar> > 180)"
      by blast
    then show False by simp
  qed
  ultimately show ?thesis using run rej by blast
qed

text \<open>
  C9. A point that passes the filter is within range, so the swap of the mapping is never
  taken for it: the pair emitted is \<open>[lat, lon]\<close>, and both rendered lines are the
  filtered points, each as \<open>[lat, lon]\<close>.
\<close>

theorem swap_branch_unreachable:
  "(line_filter p \<longrightarrow> \<not> (\<bar>lat p\<bar> > 90 \<or> \<bar>lon p\<bar> > 180) \<and> line_map p = (lat p, lon p))
   \<and> (current_line r = Some ps \<longrightarrow>
         currentLineCoords (Some r) = map (\<lambda>q. (lat q, lon q)) (filter line_filter ps))
   \<and> (optimal_line r = Some ps \<longrightarrow>
         optimalLineCoords (Some r) = map (\<lambda>q. (lat q, lon q)) (filter line_filter ps))"
proof -
  have "map line_map (filter line_filter ps) = map (\<lambda>q. (lat q, lon q)) (filter line_filter ps)"
    by (rule map_cong) (simp_all add: line_map_filtered)
  then show ?thesis
    by (simp add: currentLineCoords_def optimalLineCoords_def line_map_filtered
        line_filter_in_range)
qed

theorem swap_branch_unreachable_witness:
  "line_filter \<lparr> lat = 33.48, lon = - 86.65 \<rparr>
   \<and> line_map \<lparr> lat = 33.48, lon = - 86.65 \<rparr> = (33.48, - 86.65)
   \<and> optimalLineCoords (Some example_racing_line) = [(33.48, - 86.65)]"
proof -
  have f: "line_filter \<lparr> lat = 33.48, lon = - 86.65 \<rparr>"
    by (simp add: line_filter_def)
  have o: "optimal_line example_racing_line
             = Some [\<lparr> lat = 33.48, lon = - 86.65 \<rparr>, \<lparr> lat = 0, lon = 0 \<rparr>]"
    by (simp add: example_racing_line_def)
  from swap_branch_unreachable [of "\<lparr> lat = 33.48, lon = - 86.65 \<rparr>" example_racing_line
         "[\<lparr> lat = 33.48, lon = - 86.65 \<rparr>, \<lparr> lat = 0, lon = 0 \<rparr>]"] f o
  have "line_map \<lparr> lat = 33.48, lon = - 86.65 \<rparr> = (33.48, - 86.65)"
    and "optimalLineCoords (Some example_racing_line)
           = map (\<lambda>q. (lat q, lon q))
               (filter line_filter [\<lparr> lat = 33.48, lon = - 86.65 \<rparr>, \<lparr> lat = 0, lon = 0 \<rparr>])"
    by simp_all
  then show ?thesis using f by (simp add: line_filter_def)
qed

section \<open>Comparison: what \<open>handleCompare\<close> shows\<close>

text \<open>
  C5. With fewer than two drivers selected the handler does one thing: it alerts that at
  least two drivers are needed. No request is made and no comparison is stored.
\<close>

theorem compare_needs_two_drivers:
  "length (compareDrivers st) < 2 \<Longrightarrow>
     handleCompare parseInt raceId st net
       = [Alert ''Please select at least 2 drivers to compare'']"
  by (simp add: handleCompare_def)

theorem compare_needs_two_drivers_witness:
  "length (compareDrivers \<lparr> drivers = [example_driver], compareDrivers = [''13''] \<rparr>) < 2
   \<and> handleCompare example_parseInt ''R1''
         \<lparr> drivers = [example_driver], compareDrivers = [''13''] \<rparr>
         (\<lambda>url. Http True (Some [example_fallback_row]))
       = [Alert ''Please select at least 2 drivers to compare'']"
proof -
  have h: "length (compareDrivers \<lparr> drivers = [example_driver], compareDrivers = [''13''] \<rparr>) < 2"
    by simp
  from compare_needs_two_drivers [OF h] h show ?thesis by blast
qed

lemma fallback_row_id:
  "fallback_row parseInt ds i = Some row \<Longrightarrow> driver_id row = i"
  by (auto simp: fallback_row_def split: option.splits)

lemma fallback_row_found:
  "(fallback_row parseInt ds i \<noteq> None) = (i \<in> id' ` set ds)"
proof (cases "find (\<lambda>d. id' d = i) ds")
  case None
  then have "i \<notin> id' ` set ds" by (auto simp: find_None_iff)
  with None show ?thesis by (simp add: fallback_row_def)
next
  case (Some d)
  then obtain k where "k < length ds" and "id' (ds ! k) = i"
    by (auto simp: find_Some_iff)
  then have "i \<in> id' ` set ds" by (metis image_eqI nth_mem)
  with Some show ?thesis by (simp add: fallback_row_def)
qed

lemma fallback_ids:
  "map driver_id (map the (filter (\<lambda>r. r \<noteq> None) (map (fallback_row parseInt ds) ids)))
     = filter (\<lambda>i. i \<in> id' ` set ds) ids"
proof (induction ids)
  case Nil
  then show ?case by simp
next
  case (Cons i ids)
  show ?case
  proof (cases "fallback_row parseInt ds i")
    case None
    with fallback_row_found [of parseInt ds i] have "i \<notin> id' ` set ds" by simp
    with None Cons show ?thesis by simp
  next
    case (Some row)
    with fallback_row_found [of parseInt ds i] have "i \<in> id' ` set ds" by simp
    with Some Cons fallback_row_id [OF Some] show ?thesis by simp
  qed
qed

lemma fallback_row_fields:
  assumes "fallback_row parseInt ds i = Some row"
  shows "\<exists>d. find (\<lambda>d. id' d = driver_id row) ds = Some d
           \<and> row = \<lparr> driver_id = driver_id row,
                  cmp_best_lap =
                    Num (or_else (best_lap d)
                           (js_add (Fin 97.0)
                              (js_mul (js_rem (parseInt (driver_id row)) (Fin 10)) (Fin 0.5)))),
                  cmp_avg_lap = Num (js_add (or_else (best_lap d) (Fin 97.0)) (Fin 1.5)),
                  cmp_consistency = Num (Fin 0.8),
                  cmp_lap_count = Num (Fin 10) \<rparr>"
proof -
  from assms have i: "driver_id row = i" by (rule fallback_row_id)
  from assms show ?thesis unfolding i
    by (auto simp: fallback_row_def split: option.splits)
qed

lemma fallback_rows_fields:
  assumes "row \<in> set (fallbackComparison parseInt st)"
  shows "\<exists>d. find (\<lambda>d. id' d = driver_id row) (drivers st) = Some d
           \<and> row = \<lparr> driver_id = driver_id row,
                  cmp_best_lap =
                    Num (or_else (best_lap d)
                           (js_add (Fin 97.0)
                              (js_mul (js_rem (parseInt (driver_id row)) (Fin 10)) (Fin 0.5)))),
                  cmp_avg_lap = Num (js_add (or_else (best_lap d) (Fin 97.0)) (Fin 1.5)),
                  cmp_consistency = Num (Fin 0.8),
                  cmp_lap_count = Num (Fin 10) \<rparr>"
proof -
  from assms obtain i where "fallback_row parseInt (drivers st) i = Some row"
    by (auto simp: fallbackComparison_def)
  then show ?thesis by (rule fallback_row_fields)
qed

text \<open>
  C4, as stated, fails: drivers 13 and 99 are requested, only driver 13 is loaded and has
  no lap data, and the backend returns no rows. The comparison stored has one row, not
  two, and the row of driver 13 holds numbers, not \<open>null\<close>.
\<close>

theorem comparison_drops_unknown_driver_counterexample:
  "handleCompare example_parseInt ''R1'' example_compare_state (\<lambda>url. Http True (Some []))
     = [Fetch ''/api/race/R1/comparison?driver_ids=13,99'', SetComparison [example_fallback_row]]
   \<and> length [example_fallback_row] \<noteq> length (compareDrivers example_compare_state)
   \<and> cmp_best_lap example_fallback_row \<noteq> Null"
  by (simp add: handleCompare_def comparison_url_def fallbackComparison_def fallback_row_def
      example_compare_state_def example_driver_def example_parseInt_def
      example_fallback_row_def js_trunc_def)

text \<open>
  C4, amended. For a request over at least two driver ids: when the backend answers with
  rows, the handler stores them as they are; when the request fails, it logs and alerts;
  when the backend answers with no rows, the handler stores the fallback, unless it is
  empty, and then alerts. The fallback has one row for
  each requested id that is among the loaded drivers, in the order requested, so as many
  rows as ids exactly when every requested id is loaded. Each row is made from the first
  loaded driver with its id: the best lap is \<open>driver.best_lap || 97.0 + (parseInt(id) % 10) * 0.5\<close>,
  the average lap \<open>(driver.best_lap || 97.0) + 1.5\<close>, the consistency 0.8 and the lap
  count 10, all of them numbers.
\<close>

theorem comparison_rows_of_request:
  assumes "2 \<le> length (compareDrivers st)"
  shows "(net (comparison_url raceId (compareDrivers st)) = Http True (Some (r # rs)) \<longrightarrow>
            handleCompare parseInt raceId st net
              = [Fetch (comparison_url raceId (compareDrivers st)), SetComparison (r # rs)])
       \<and> (net (comparison_url raceId (compareDrivers st)) = Threw
            \<or> net (comparison_url raceId (compareDrivers st)) = Http False body \<longrightarrow>
            handleCompare parseInt raceId st net
              = [Fetch (comparison_url raceId (compareDrivers st)), ConsoleError,
                 Alert ''Failed to compare drivers. Please check if the backend is running.''])
       \<and> (net (comparison_url raceId (compareDrivers st)) = Http True None
            \<or> net (comparison_url raceId (compareDrivers st)) = Http True (Some []) \<longrightarrow>
            handleCompare parseInt raceId st net
              = [Fetch (comparison_url raceId (compareDrivers st)),
                 if fallbackComparison parseInt st = []
                 then Alert ''No comparison data available for selected drivers. Please ensure the backend is running and data files are accessible.''
                 else SetComparison (fallbackComparison parseInt st)])
       \<and> map driver_id (fallbackComparison parseInt st)
            = filter (\<lambda>i. i \<in> id' ` set (drivers st)) (compareDrivers st)
       \<and> (set (compareDrivers st) \<subseteq> id' ` set (drivers st) \<longrightarrow>
            map driver_id (fallbackComparison parseInt st) = compareDrivers st
            \<and> length (fallbackComparison parseInt st) = length (compareDrivers st))
       \<and> (\<forall>row \<in> set (fallbackComparison parseInt st).
            \<exists>d. find (\<lambda>d. id' d = driver_id row) (drivers st) = Some d
              \<and> row = \<lparr> driver_id = driver_id row,
                  cmp_best_lap =
                    Num (or_else (best_lap d)
                           (js_add (Fin 97.0)
                              (js_mul (js_rem (parseInt (driver_id row)) (Fin 10)) (Fin 0.5)))),
                  cmp_avg_lap = Num (js_add (or_else (best_lap d) (Fin 97.0)) (Fin 1.5)),
                  cmp_consistency = Num (Fin 0.8),
                  cmp_lap_count = Num (Fin 10) \<rparr>)"
proof -
  let ?url = "comparison_url raceId (compareDrivers st)"
  let ?fb = "fallbackComparison parseInt st"
  from assms have n2: "\<not> length (compareDrivers st) < 2" by simp
  have pass: "net ?url = Http True (Some (r # rs)) \<longrightarrow>
      handleCompare parseInt raceId st net = [Fetch ?url, SetComparison (r # rs)]"
    using n2 by (simp add: handleCompare_def Let_def)
  have fall: "net ?url = Http True None \<or> net ?url = Http True (Some []) \<longrightarrow>
      handleCompare parseInt raceId st net
        = [Fetch ?url,
           if ?fb = []
           then Alert ''No comparison data available for selected drivers. Please ensure the backend is running and data files are accessible.''
           else SetComparison ?fb]"
    using n2 by (auto simp: handleCompare_def Let_def)
  have fail: "net ?url = Threw \<or> net ?url = Http False body \<longrightarrow>
      handleCompare parseInt raceId st net
        = [Fetch ?url, ConsoleError, Alert ''Failed to compare drivers. Please check if the backend is running.'']"
    using n2 by (auto simp: handleCompare_def Let_def)
  have ids: "map driver_id ?fb = filter (\<lambda>i. i \<in> id' ` set (drivers st)) (compareDrivers st)"
    unfolding fallbackComparison_def by (rule fallback_ids)
  have full: "set (compareDrivers st) \<subseteq> id' ` set (drivers st) \<longrightarrow>
      map driver_id ?fb = compareDrivers st \<and> length ?fb = length (compareDrivers st)"
  proof
    assume sub: "set (compareDrivers st) \<subseteq> id' ` set (drivers st)"
    then have "filter (\<lambda>i. i \<in> id' ` set (drivers st)) (compareDrivers st) = compareDrivers st"
      by (auto simp: filter_id_conv)
    with ids have m: "map driver_id ?fb = compareDrivers st" by simp
    then have "length ?fb = length (compareDrivers st)" by (metis length_map)
    with m show "map driver_id ?fb = compareDrivers st \<and> length ?fb = length (compareDrivers st)"
      by simp
  qed
  have fields: "\<forall>row \<in> set ?fb.
      \<exists>d. find (\<lambda>d. id' d = driver_id row) (drivers st) = Some d
        \<and> row = \<lparr> driver_id = driver_id row,
                  cmp_best_lap =
                    Num (or_else (best_lap d)
                           (js_add (Fin 97.0)
                              (js_mul (js_rem (parseInt (driver_id row)) (Fin 10)) (Fin 0.5)))),
                  cmp_avg_lap = Num (js_add (or_else (best_lap d) (Fin 97.0)) (Fin 1.5)),
                  cmp_consistency = Num (Fin 0.8),
                  cmp_lap_count = Num (Fin 10) \<rparr>"
    using fallback_rows_fields by blast
  from pass fail fall ids full fields show ?thesis by (intro conjI) assumption+
qed

theorem comparison_rows_of_request_witness:
  "2 \<le> length (compareDrivers example_compare_state)
   \<and> handleCompare example_parseInt ''R1'' example_compare_state (\<lambda>url. Http True (Some []))
       = [Fetch ''/api/race/R1/comparison?driver_ids=13,99'', SetComparison [example_fallback_row]]
   \<and> map driver_id (fallbackComparison example_parseInt example_compare_state) = [''13'']
   \<and> cmp_consistency example_fallback_row = Num (Fin 0.8)
   \<and> handleCompare example_parseInt ''R1'' example_loaded_state
         (\<lambda>url. Http True (Some [example_fallback_row]))
       = [Fetch ''/api/race/R1/comparison?driver_ids=22,13'', SetComparison [example_fallback_row]]
   \<and> map driver_id (fallbackComparison example_parseInt example_loaded_state) = [''22'', ''13'']
   \<and> length (fallbackComparison example_parseInt example_loaded_state) = 2
   \<and> handleCompare example_parseInt ''R1'' example_compare_state (\<lambda>url. Threw)
       = [Fetch ''/api/race/R1/comparison?driver_ids=13,99'', ConsoleError,
          Alert ''Failed to compare drivers. Please check if the backend is running.'']
   \<and> cmp_best_lap example_fallback_row = Num (Fin 98.5)
   \<and> cmp_avg_lap example_fallback_row = Num (Fin 98.5)
   \<and> cmp_lap_count example_fallback_row = Num (Fin 10)
   \<and> fallbackComparison example_parseInt example_loaded_state
       = [\<lparr> driver_id = ''22'', cmp_best_lap = Num (Fin 97.428), cmp_avg_lap = Num (Fin 98.928),
            cmp_consistency = Num (Fin 0.8), cmp_lap_count = Num (Fin 10) \<rparr>,
          example_fallback_row]"
proof -
  let ?none = "\<lambda>url :: string. Http True (Some ([] :: comparison_row list))"
  let ?rows = "\<lambda>url :: string. Http True (Some [example_fallback_row])"
  have h1: "2 \<le> length (compareDrivers example_compare_state)"
    by (simp add: example_compare_state_def)
  have h2: "2 \<le> length (compareDrivers example_loaded_state)"
    by (simp add: example_loaded_state_def)
  have fb: "fallbackComparison example_parseInt example_compare_state = [example_fallback_row]"
    by (simp add: fallbackComparison_def fallback_row_def example_compare_state_def
        example_driver_def example_parseInt_def example_fallback_row_def js_trunc_def)
  have url1: "comparison_url ''R1'' (compareDrivers example_compare_state)
                = ''/api/race/R1/comparison?driver_ids=13,99''"
    by (simp add: comparison_url_def example_compare_state_def)
  have url2: "comparison_url ''R1'' (compareDrivers example_loaded_state)
                = ''/api/race/R1/comparison?driver_ids=22,13''"
    by (simp add: comparison_url_def example_loaded_state_def)
  have sub: "set (compareDrivers example_loaded_state) \<subseteq> id' ` set (drivers example_loaded_state)"
    by (simp add: example_loaded_state_def example_driver_def)
  note a = comparison_rows_of_request [OF h1, where net = ?none and raceId = "''R1''"
             and r = example_fallback_row and rs = "[]" and parseInt = example_parseInt
             and body = None]
  note b = comparison_rows_of_request [OF h2, where net = ?rows and raceId = "''R1''"
             and r = example_fallback_row and rs = "[]" and parseInt = example_parseInt
             and body = None]
  note c = comparison_rows_of_request [OF h1, where net = "\<lambda>url. Threw" and raceId = "''R1''"
             and r = example_fallback_row and rs = "[]" and parseInt = example_parseInt
             and body = None]
  from c url1
  have c1: "handleCompare example_parseInt ''R1'' example_compare_state (\<lambda>url. Threw)
       = [Fetch ''/api/race/R1/comparison?driver_ids=13,99'', ConsoleError,
          Alert ''Failed to compare drivers. Please check if the backend is running.'']"
    by simp
  from a fb url1
  have a1: "handleCompare example_parseInt ''R1'' example_compare_state ?none
              = [Fetch ''/api/race/R1/comparison?driver_ids=13,99'',
                 SetComparison [example_fallback_row]]"
    by simp
  from a fb have a2: "map driver_id (fallbackComparison example_parseInt example_compare_state)
                        = [''13'']"
    by (simp add: example_fallback_row_def)
  from a have "\<forall>row \<in> set (fallbackComparison example_parseInt example_compare_state).
      \<exists>d. find (\<lambda>d. id' d = driver_id row) (drivers example_compare_state) = Some d
        \<and> row = \<lparr> driver_id = driver_id row,
                  cmp_best_lap =
                    Num (or_else (best_lap d)
                           (js_add (Fin 97.0)
                              (js_mul (js_rem (example_parseInt (driver_id row)) (Fin 10)) (Fin 0.5)))),
                  cmp_avg_lap = Num (js_add (or_else (best_lap d) (Fin 97.0)) (Fin 1.5)),
                  cmp_consistency = Num (Fin 0.8),
                  cmp_lap_count = Num (Fin 10) \<rparr>"
    by (elim conjE)
  with fb obtain d where
    d: "find (\<lambda>d. id' d = driver_id example_fallback_row) (drivers example_compare_state) = Some d"
    and row: "example_fallback_row = \<lparr> driver_id = driver_id example_fallback_row,
                  cmp_best_lap =
                    Num (or_else (best_lap d)
                           (js_add (Fin 97.0)
                              (js_mul (js_rem (example_parseInt (driver_id example_fallback_row)) (Fin 10)) (Fin 0.5)))),
                  cmp_avg_lap = Num (js_add (or_else (best_lap d) (Fin 97.0)) (Fin 1.5)),
                  cmp_consistency = Num (Fin 0.8),
                  cmp_lap_count = Num (Fin 10) \<rparr>"
    by auto
  from d have "d = example_driver"
    by (simp add: example_compare_state_def example_fallback_row_def example_driver_def)
  with row have row13: "example_fallback_row
      = \<lparr> driver_id = ''13'', cmp_best_lap = Num (Fin 98.5), cmp_avg_lap = Num (Fin 98.5),
          cmp_consistency = Num (Fin 0.8), cmp_lap_count = Num (Fin 10) \<rparr>"
    by (simp add: example_driver_def example_parseInt_def example_fallback_row_def js_trunc_def)
  have a3: "cmp_consistency example_fallback_row = Num (Fin 0.8)"
    and a4: "cmp_best_lap example_fallback_row = Num (Fin 98.5)"
    and a5: "cmp_avg_lap example_fallback_row = Num (Fin 98.5)"
    and a6: "cmp_lap_count example_fallback_row = Num (Fin 10)"
    by (simp_all add: row13)
  have fb2: "fallbackComparison example_parseInt example_loaded_state
       = [\<lparr> driver_id = ''22'', cmp_best_lap = Num (Fin 97.428), cmp_avg_lap = Num (Fin 98.928),
            cmp_consistency = Num (Fin 0.8), cmp_lap_count = Num (Fin 10) \<rparr>,
          example_fallback_row]"
    by (simp add: fallbackComparison_def fallback_row_def example_loaded_state_def
        example_driver_def example_parseInt_def example_fallback_row_def js_trunc_def)
  from b url2
  have b1: "handleCompare example_parseInt ''R1'' example_loaded_state ?rows
              = [Fetch ''/api/race/R1/comparison?driver_ids=22,13'',
                 SetComparison [example_fallback_row]]"
    by simp
  from b sub
  have b2: "map driver_id (fallbackComparison example_parseInt example_loaded_state)
              = compareDrivers example_loaded_state"
    and b3: "length (fallbackComparison example_parseInt example_loaded_state)
              = length (compareDrivers example_loaded_state)"
    by blast+
  from b2 b3 have b4: "map driver_id (fallbackComparison example_parseInt example_loaded_state)
              = [''22'', ''13'']"
    and b5: "length (fallbackComparison example_parseInt example_loaded_state) = 2"
    by (simp_all add: example_loaded_state_def)
  from h1 a1 a2 a3 b1 b4 b5 c1 a4 a5 a6 fb2 show ?thesis by (intro conjI) assumption+
qed

section \<open>Strategy calculator\<close>

text \<open>
  C6. When the current lap is not before the total number of laps, the calculation is
  declined: the stored strategy is cleared, nothing else of the state changes, no request
  is made and no error is logged.
\<close>

theorem strategy_declined_when_no_laps_left:
  "totalLaps st \<le> currentLap st \<Longrightarrow>
     calculateStrategy raceId st net = (st\<lparr> strategy := None \<rparr>, [])"
  by (simp add: calculateStrategy_def)

theorem strategy_declined_when_no_laps_left_witness:
  "totalLaps last_lap_state \<le> currentLap last_lap_state
   \<and> calculateStrategy ''R1'' last_lap_state (\<lambda>req. Http True ())
       = (\<lparr> currentLap = 27, totalLaps = 27, degradationRate = 0.02, strategy = None,
            loading = False \<rparr>, [])"
proof -
  have h: "totalLaps last_lap_state \<le> currentLap last_lap_state"
    by (simp add: last_lap_state_def)
  from strategy_declined_when_no_laps_left [OF h, of "''R1''" "\<lambda>req. Http True ()"] h
  show ?thesis by (simp add: last_lap_state_def)
qed

text \<open>
  C7 does not hold of the code. Typing 10 into the degradation field of the initial state
  sets the rate to 0.1, outside the range the field declares, and the calculation that
  the change triggers requests a strategy for that rate; an emptied field requests one
  for the rate 0, and a current lap of -5 is requested as it is. None of the three
  requests is within the contract.
\<close>

theorem out_of_contract_rate_reaches_engine:
  "declared_ranges initial_strategy_state
   \<and> \<not> declared_ranges (onChange_degradationRate (Some 10) initial_strategy_state)
   \<and> snd (change_rate_and_recalculate ''R1'' (Some 10) initial_strategy_state (\<lambda>req. Http True ()))
     = [Request \<lparr> race = ''R1'', current_lap = 10, total_laps = 27, tire_degradation_rate = 0.1 \<rparr>]
   \<and> \<not> in_contract \<lparr> race = ''R1'', current_lap = 10, total_laps = 27, tire_degradation_rate = 0.1 \<rparr>
   \<and> snd (change_rate_and_recalculate ''R1'' None initial_strategy_state (\<lambda>req. Http True ()))
     = [Request \<lparr> race = ''R1'', current_lap = 10, total_laps = 27, tire_degradation_rate = 0 \<rparr>]
   \<and> \<not> in_contract \<lparr> race = ''R1'', current_lap = 10, total_laps = 27, tire_degradation_rate = 0 \<rparr>
   \<and> snd (calculateStrategy ''R1'' (onChange_currentLap (Some (- 5)) initial_strategy_state)
            (\<lambda>req. Http True ()))
     = [Request \<lparr> race = ''R1'', current_lap = - 5, total_laps = 27, tire_degradation_rate = 0.02 \<rparr>]
   \<and> \<not> in_contract \<lparr> race = ''R1'', current_lap = - 5, total_laps = 27, tire_degradation_rate = 0.02 \<rparr>"
  by (simp add: change_rate_and_recalculate_def calculateStrategy_def onChange_degradationRate_def
      onChange_currentLap_def initial_strategy_state_def in_contract_def declared_ranges_def)

section \<open>Lap-times chart\<close>

text \<open>
  C8 does not hold of the code. For one and the same analysis, two renderings of the
  lap-times chart differ when \<open>Math.random()\<close> returns 0 in one and 0.5 in the other.
\<close>

theorem lap_times_chart_depends_on_random_draw:
  "lapTimesData (Some example_analysis) (\<lambda>i. 0) = [\<lparr> lap_index = 1, lap_seconds = Fin 98 \<rparr>]
   \<and> lapTimesData (Some example_analysis) (\<lambda>i. 0.5) = [\<lparr> lap_index = 1, lap_seconds = Fin 98.5 \<rparr>]
   \<and> lapTimesData (Some example_analysis) (\<lambda>i. 0) \<noteq> lapTimesData (Some example_analysis) (\<lambda>i. 0.5)"
  by (simp add: lapTimesData_def example_analysis_def)

section \<open>Lap-time formatting\<close>

lemmas format_steps =
  fixed3_def nearest_thousandth_def digits_or_zero_def zero_fill_def point_before_last3_def
  digits.simps digit_char_def padStart_def js_trunc_def

lemma replicate_numeral_unfold: "replicate (numeral k) x = x # replicate (pred_numeral k) x"
  by (simp add: numeral_eq_Suc)

lemma digit_char_is_digit: "digit_char d \<in> set ''0123456789''"
proof -
  have "d mod 10 < length ''0123456789''" by simp
  then show ?thesis unfolding digit_char_def by (rule nth_mem)
qed

lemma digits_are_digits: "set (digits n) \<subseteq> set ''0123456789''"
proof (induction n rule: digits.induct)
  case (1 n)
  show ?case
  proof (cases "n < 10")
    case True
    then have "digits n = [digit_char n]" by (simp add: digits.simps)
    then show ?thesis using digit_char_is_digit [of n] by simp
  next
    case False
    then have "digits n = digits (n div 10) @ [digit_char (n mod 10)]"
      by (subst digits.simps) simp
    then show ?thesis using 1 [OF False] digit_char_is_digit [of "n mod 10"] by simp
  qed
qed

lemma digits_length: "n < 10 ^ k \<Longrightarrow> 0 < k \<Longrightarrow> length (digits n) \<le> k \<and> 0 < length (digits n)"
proof (induction n arbitrary: k rule: digits.induct)
  case (1 n)
  show ?case
  proof (cases "n < 10")
    case True
    then have "digits n = [digit_char n]" by (simp add: digits.simps)
    then show ?thesis using "1.prems" by simp
  next
    case False
    then have eq: "digits n = digits (n div 10) @ [digit_char (n mod 10)]"
      by (subst digits.simps) simp
    from False "1.prems" have "k \<noteq> 1" by auto
    with "1.prems" obtain j where k: "k = Suc j" and j: "0 < j" by (cases k) auto
    from "1.prems" k have "n div 10 < 10 ^ j" by (simp add: less_mult_imp_div_less mult.commute)
    from "1.IH" [OF False this j] eq k show ?thesis by simp
  qed
qed

lemma nearest_thousandth_below_minute:
  assumes "0 \<le> r" and "r < 60"
  shows "nearest_thousandth r < 10 ^ 5"
proof -
  have "r * 1000 + 1 / 2 < 60001" using assms by simp
  then have "\<lfloor>r * 1000 + 1 / 2\<rfloor> < 60001" by linarith
  then have "nat \<lfloor>r * 1000 + 1 / 2\<rfloor> < 100000" by linarith
  then show ?thesis unfolding nearest_thousandth_def by simp
qed

lemma zero_fill_shape:
  assumes "0 < length m" and "length m \<le> 5" and "set m \<subseteq> set ''0123456789''"
  shows "(length (zero_fill m) = 4 \<or> length (zero_fill m) = 5)
         \<and> set (zero_fill m) \<subseteq> set ''0123456789''"
proof (cases "length m \<le> 3")
  case True
  then have z: "zero_fill m = replicate (4 - length m) (CHR ''0'') @ m"
    by (simp add: zero_fill_def)
  have "length (zero_fill m) = 4" unfolding z using True by simp
  moreover have "set (zero_fill m) \<subseteq> set ''0123456789''"
    unfolding z using assms(3) by auto
  ultimately show ?thesis by simp
next
  case False
  then have "zero_fill m = m" by (simp add: zero_fill_def)
  with False assms show ?thesis by auto
qed

lemma pad_point_shape:
  assumes "length m = 4 \<or> length m = 5" and "set m \<subseteq> set ''0123456789''"
  shows "\<exists>a b c d e. set [a, b, c, d, e] \<subseteq> set ''0123456789''
           \<and> padStart 6 (CHR ''0'') (point_before_last3 m) = [a, b, CHR ''.'', c, d, e]"
  using assms(1)
proof
  assume "length m = 4"
  then obtain w x y z where m: "m = [w, x, y, z]"
    by (auto simp: length_Suc_conv numeral_eq_Suc)
  have "padStart 6 (CHR ''0'') (point_before_last3 m) = [CHR ''0'', w, CHR ''.'', x, y, z]"
    by (simp add: m padStart_def point_before_last3_def)
  moreover have "set [CHR ''0'', w, x, y, z] \<subseteq> set ''0123456789''"
    using assms(2) by (simp add: m)
  ultimately show ?thesis by blast
next
  assume "length m = 5"
  then obtain v w x y z where m: "m = [v, w, x, y, z]"
    by (auto simp: length_Suc_conv numeral_eq_Suc)
  have "padStart 6 (CHR ''0'') (point_before_last3 m) = [v, w, CHR ''.'', x, y, z]"
    by (simp add: m padStart_def point_before_last3_def)
  moreover have "set [v, w, x, y, z] \<subseteq> set ''0123456789''"
    using assms(2) by (simp add: m)
  ultimately show ?thesis by blast
qed

lemma fixed3_shape:
  assumes "0 \<le> r" and "r < 60"
  shows "\<exists>a b c d e. set [a, b, c, d, e] \<subseteq> set ''0123456789''
           \<and> padStart 6 (CHR ''0'') (fixed3 r) = [a, b, CHR ''.'', c, d, e]"
proof -
  let ?n = "nearest_thousandth r"
  have "digits 0 = ''0''" by (simp add: digits.simps digit_char_def)
  then have d: "digits_or_zero ?n = digits ?n" by (simp add: digits_or_zero_def)
  from assms have "?n < 10 ^ 5" by (rule nearest_thousandth_below_minute)
  then have "length (digits ?n) \<le> 5 \<and> 0 < length (digits ?n)" by (rule digits_length) simp
  then have "(length (zero_fill (digits ?n)) = 4 \<or> length (zero_fill (digits ?n)) = 5)
      \<and> set (zero_fill (digits ?n)) \<subseteq> set ''0123456789''"
    using digits_are_digits [of ?n] by (intro zero_fill_shape) simp_all
  then show ?thesis unfolding fixed3_def d by (intro pad_point_shape) simp_all
qed

lemma remainder_of_minute:
  assumes "0 < (s :: rat)"
  shows "0 \<le> s - 60 * of_int \<lfloor>s / 60\<rfloor> \<and> s - 60 * of_int \<lfloor>s / 60\<rfloor> < 60"
proof -
  have "of_int \<lfloor>s / 60\<rfloor> \<le> s / 60" by (rule of_int_floor_le)
  moreover have "s / 60 < of_int \<lfloor>s / 60\<rfloor> + 1" by linarith
  ultimately show ?thesis by (simp add: field_simps)
qed

lemma format_body_positive:
  assumes "0 < s"
  shows "\<exists>a b c d e. set [a, b, c, d, e] \<subseteq> set ''0123456789''
           \<and> formatLapTime_Dashboard (Num (Fin s))
               = digits (nat \<lfloor>s / 60\<rfloor>) @ '':'' @ [a, b, CHR ''.'', c, d, e]"
proof -
  let ?r = "s - 60 * of_int \<lfloor>s / 60\<rfloor>"
  from assms have q: "0 \<le> s / 60" by simp
  then have fl: "0 \<le> \<lfloor>s / 60\<rfloor>" by simp
  from assms have r: "0 \<le> ?r" "?r < 60" using remainder_of_minute by blast+
  have rem: "js_rem (Fin s) (Fin 60) = Fin ?r" using q by (simp add: js_trunc_def)
  have "formatLapTime_Dashboard (Num (Fin s))
          = digits (nat \<lfloor>s / 60\<rfloor>) @ '':'' @ padStart 6 (CHR ''0'') (fixed3 ?r)"
    unfolding formatLapTime_Dashboard_def Let_def to_number.simps rem
    using fl r(1) by simp
  with fixed3_shape [OF r] show ?thesis by auto
qed

text \<open>
  Without the guard, the helper of the Dashboard formats what the other two answer with
  \<open>N/A\<close>.
\<close>

lemma dashboard_helper_unguarded:
  "formatLapTime_Dashboard (Num (Fin 0)) = ''0:00.000''
   \<and> formatLapTime_Dashboard Null = ''0:00.000''
   \<and> formatLapTime_Dashboard Undefined = ''NaN:000NaN''"
  by (simp add: formatLapTime_Dashboard_def format_steps replicate_numeral_unfold)

text \<open>
  C10. On every number above 0 the three helpers return the same string: the minutes, a
  colon, two digits of seconds, a point and three digits of thousandths (the minutes
  written with all their digits, as JavaScript does below \<open>10^21\<close>). On 0, \<open>null\<close> and
  \<open>undefined\<close> the helpers of DriverAnalysis and of RaceInsights return \<open>N/A\<close>.
\<close>

theorem formatLapTime_helpers_agree:
  "(0 < s \<longrightarrow>
      formatLapTime_DriverAnalysis (Num (Fin s)) = formatLapTime_Dashboard (Num (Fin s))
      \<and> formatLapTime_RaceInsights (Num (Fin s)) = formatLapTime_Dashboard (Num (Fin s))
      \<and> (\<exists>a b c d e. set [a, b, c, d, e] \<subseteq> set ''0123456789''
            \<and> formatLapTime_Dashboard (Num (Fin s))
                = digits (nat \<lfloor>s / 60\<rfloor>) @ '':'' @ [a, b, CHR ''.'', c, d, e]))
   \<and> (v = Num (Fin 0) \<or> v = Null \<or> v = Undefined \<longrightarrow>
      formatLapTime_DriverAnalysis v = ''N/A'' \<and> formatLapTime_RaceInsights v = ''N/A'')"
proof -
  have same: "formatLapTime_DriverAnalysis (Num (Fin s)) = formatLapTime_Dashboard (Num (Fin s))
      \<and> formatLapTime_RaceInsights (Num (Fin s)) = formatLapTime_Dashboard (Num (Fin s))"
    if "0 < s"
    using that
    by (simp add: formatLapTime_DriverAnalysis_def formatLapTime_RaceInsights_def
        formatLapTime_Dashboard_def)
  have na: "formatLapTime_DriverAnalysis v = ''N/A'' \<and> formatLapTime_RaceInsights v = ''N/A''"
    if "v = Num (Fin 0) \<or> v = Null \<or> v = Undefined"
    using that
    by (auto simp: formatLapTime_DriverAnalysis_def formatLapTime_RaceInsights_def)
  from same na format_body_positive [of s] show ?thesis by blast
qed

theorem formatLapTime_helpers_agree_witness:
  "formatLapTime_DriverAnalysis (Num (Fin 96.5)) = ''1:36.500''
   \<and> formatLapTime_RaceInsights (Num (Fin 96.5)) = ''1:36.500''
   \<and> formatLapTime_Dashboard (Num (Fin 96.5)) = ''1:36.500''
   \<and> formatLapTime_DriverAnalysis Null = ''N/A''
   \<and> formatLapTime_RaceInsights Null = ''N/A''"
proof -
  have pos: "(0 :: rat) < 96.5" by simp
  have run: "formatLapTime_Dashboard (Num (Fin 96.5)) = ''1:36.500''"
    by (simp add: formatLapTime_Dashboard_def format_steps)
  from formatLapTime_helpers_agree [of "96.5" Null] pos run show ?thesis by simp
qed

end
